theory Spec2Isabelle
  imports Main "HOL-Library.Char_ord" "HOL-Library.List_Lexorder"
begin

section \<open>Rule identifier conflict check (check_rule_ids.py)\<close>

text \<open>
  A shallow embedding of \<^verbatim>\<open>check_rule_ids.py\<close>. The script asks git for the rule
  files changed against \<^verbatim>\<open>origin/main\<close>, builds an index from rule identifier to the
  files of \<^verbatim>\<open>origin/main\<close> declaring it, and checks every changed file against it.

  Conventions of the embedding:
  \<^item> a Python \<^verbatim>\<open>str\<close> is a \<^typ>\<open>string\<close>; each \<^typ>\<open>char\<close> is one code point in the
    range 0 to 255 (code points above 255 are outside the embedding);
  \<^item> a raised exception is a value of \<open>exn\<close>; a computation returns the lines it printed
    together with either the exception it raised (\<open>Inl\<close>) or its result (\<open>Inr\<close>);
  \<^item> every \<^verbatim>\<open>print\<close> of the source is one \<open>event\<close>, in the order printed;
  \<^item> what the script obtains from outside (git, the working tree, the XML parser of the
    standard library, the interpreter's limit on integer literals) is a field of \<open>env\<close>.
\<close>

subsection \<open>Python strings\<close>

text \<open>\<^verbatim>\<open>str.isspace\<close> on one character, for the code points up to 255.\<close>

definition isspace :: "char \<Rightarrow> bool" where
  "isspace c = (let n = (of_char c :: nat) in
     (9 \<le> n \<and> n \<le> 13) \<or> (28 \<le> n \<and> n \<le> 32) \<or> n = 133 \<or> n = 160)"

text \<open>\<^verbatim>\<open>s.strip()\<close>: leading and trailing whitespace removed.\<close>

definition strip :: "string \<Rightarrow> string" where
  "strip s = rev (dropWhile isspace (rev (dropWhile isspace s)))"

text \<open>
  \<^verbatim>\<open>c.isdigit()\<close> on one character: the ASCII digits and the superscript digits
  U+00B2, U+00B3 and U+00B9. \<^verbatim>\<open>c.isdecimal()\<close>: the ASCII digits only.
\<close>

definition isdecimal_char :: "char \<Rightarrow> bool" where
  "isdecimal_char c = (let n = (of_char c :: nat) in 48 \<le> n \<and> n \<le> 57)"

definition isdigit_char :: "char \<Rightarrow> bool" where
  "isdigit_char c = (let n = (of_char c :: nat) in
     (48 \<le> n \<and> n \<le> 57) \<or> n = 178 \<or> n = 179 \<or> n = 185)"

text \<open>\<^verbatim>\<open>s.isdigit()\<close>: at least one character, and all of them digits.\<close>

definition isdigit :: "string \<Rightarrow> bool" where
  "isdigit s = (s \<noteq> [] \<and> list_all isdigit_char s)"

definition startswith :: "string \<Rightarrow> string \<Rightarrow> bool" where
  "startswith s p = (take (length p) s = p)"

definition endswith :: "string \<Rightarrow> string \<Rightarrow> bool" where
  "endswith s p = (length p \<le> length s \<and> drop (length s - length p) s = p)"

text \<open>
  \<^verbatim>\<open>s.splitlines()\<close>: the line boundaries among the code points up to 255 are
  LF, VT, FF, CR, CR LF, FS, GS, RS and NEL; a final line break opens no further line.
\<close>

definition is_linebreak :: "char \<Rightarrow> bool" where
  "is_linebreak c = (let n = (of_char c :: nat) in
     (10 \<le> n \<and> n \<le> 13) \<or> (28 \<le> n \<and> n \<le> 30) \<or> n = 133)"

fun splitlines_from :: "string \<Rightarrow> string \<Rightarrow> string list" where
  "splitlines_from line [] = (if line = [] then [] else [line])"
| "splitlines_from line [c] =
     (if is_linebreak c then [line] else [line @ [c]])"
| "splitlines_from line (c # d # s) =
     (if c = CHR 0x0D \<and> d = CHR 0x0A then line # splitlines_from [] s
      else if is_linebreak c then line # splitlines_from [] (d # s)
      else splitlines_from (line @ [c]) (d # s))"

definition splitlines :: "string \<Rightarrow> string list" where
  "splitlines s = splitlines_from [] s"

text \<open>
  \<^verbatim>\<open>s.split(maxsplit=1)\<close>: split at the first run of whitespace; no word gives the
  empty list, and the rest of the string after the first run is the second element.
\<close>

definition split_maxsplit1 :: "string \<Rightarrow> string list" where
  "split_maxsplit1 s =
     (let s1 = dropWhile isspace s in
      if s1 = [] then []
      else let word = takeWhile (\<lambda>c. \<not> isspace c) s1;
               rest = dropWhile isspace (dropWhile (\<lambda>c. \<not> isspace c) s1)
           in if rest = [] then [word] else [word, rest])"

subsection \<open>Exceptions, printed lines, computations\<close>

text \<open>
  The exceptions the script meets. \<^verbatim>\<open>SystemExit\<close> derives from
  \<^verbatim>\<open>BaseException\<close> only, so \<^verbatim>\<open>except Exception\<close> does not catch it; all
  the others derive from \<^verbatim>\<open>Exception\<close>.
\<close>

datatype exn =
    SystemExit nat
  | CalledProcessError "string list" string
  | ParseError string
  | ValueError string
  | OtherException string

fun is_Exception :: "exn \<Rightarrow> bool" where
  "is_Exception (SystemExit code) = False"
| "is_Exception e = True"

fun is_CalledProcessError :: "exn \<Rightarrow> bool" where
  "is_CalledProcessError (CalledProcessError args err) = True"
| "is_CalledProcessError e = False"

fun is_ParseError :: "exn \<Rightarrow> bool" where
  "is_ParseError (ParseError msg) = True"
| "is_ParseError e = False"

text \<open>The text of an exception, as \<^verbatim>\<open>{e}\<close> prints it (the library's wording is kept abstract).\<close>

fun exn_text :: "exn \<Rightarrow> string" where
  "exn_text (SystemExit code) = []"
| "exn_text (CalledProcessError args err) = err"
| "exn_text (ParseError msg) = msg"
| "exn_text (ValueError msg) = msg"
| "exn_text (OtherException msg) = msg"

text \<open>One constructor per \<^verbatim>\<open>print\<close> of the source, with the values it interpolates.\<close>

datatype event =
    GitCommandFailed "string list"
  | GitErrorText string
  | FailedToGetChangedFiles string
  | XmlParseError string
  | ContentPreview string
  | UnexpectedXmlError string
  | CouldNotReadFromMain string
  | FailedToGetMainIds string
  | ConflictsDetected
  | RuleIdFoundIn int
  | FoundInFile string
  | RangeWarning "int list"
  | RangeAdvice
  | Starting
  | NoRuleFilesChanged
  | CheckingFiles "string list"
  | CheckingFile string
  | CouldNotRead string string
  | NoRuleIdsFound string
  | DuplicateIdsDetected string "int list"
  | NoConflictsInNewFile string
  | IdsUnchanged string
  | NoConflictingIds string
  | FileDeleted string
  | AllPassed

type_synonym 'a comp = "event list \<times> (exn + 'a)"

definition return :: "'a \<Rightarrow> 'a comp" where
  "return x = ([], Inr x)"

definition raise :: "exn \<Rightarrow> 'a comp" where
  "raise e = ([], Inl e)"

definition print :: "event \<Rightarrow> unit comp" where
  "print ev = ([ev], Inr ())"

text \<open>Sequencing: what follows runs only if the first part raised nothing.\<close>

definition bind :: "'a comp \<Rightarrow> ('a \<Rightarrow> 'b comp) \<Rightarrow> 'b comp" where
  "bind m f = (case m of
       (out, Inl e) \<Rightarrow> (out, Inl e)
     | (out, Inr x) \<Rightarrow> (case f x of (out', r) \<Rightarrow> (out @ out', r)))"

text \<open>
  \<^verbatim>\<open>try: m except C as e: h e\<close>, where \<open>catches\<close> says which exceptions the
  clause matches; any other exception propagates.
\<close>

definition try_except :: "'a comp \<Rightarrow> (exn \<Rightarrow> bool) \<Rightarrow> (exn \<Rightarrow> 'a comp) \<Rightarrow> 'a comp" where
  "try_except m catches h = (case m of
       (out, Inl e) \<Rightarrow>
         (if catches e then (case h e of (out', r) \<Rightarrow> (out @ out', r)) else (out, Inl e))
     | (out, Inr x) \<Rightarrow> (out, Inr x))"

subsection \<open>What the script obtains from outside\<close>

text \<open>
  An element of \<^verbatim>\<open>xml.etree.ElementTree\<close>: its tag, its attributes (a dictionary,
  here an association list read with \<^const>\<open>map_of\<close>) and its child elements in
  document order. Text and tail play no part in the script.
\<close>

datatype element = Element (tag: string) (attrib: "(string \<times> string) list") (children: "element list")

text \<open>
  The outcome of \<^verbatim>\<open>ET.fromstring\<close>: the root element, \<^verbatim>\<open>ET.ParseError\<close>
  with its message, or some other exception deriving from \<^verbatim>\<open>Exception\<close>.
\<close>

datatype parse_result = Parsed element | NotWellFormed string | ParserFailed string

text \<open>
  The outcome of \<^verbatim>\<open>subprocess.run(args, capture_output=True, text=True, check=True)\<close>:
  the standard output of a command that exited with status 0, the standard error of one
  that exited with another status (for which \<^verbatim>\<open>check=True\<close> raises
  \<^verbatim>\<open>CalledProcessError\<close>), or another exception (the program cannot be started).
\<close>

datatype process_result = Completed string | NonZeroExit string | NotStarted string

text \<open>
  \<open>read_text\<close> is \<^verbatim>\<open>Path.read_text(encoding='utf-8')\<close>: \<open>Inl\<close> the text of the
  exception when the file cannot be read or decoded. \<open>max_str_digits\<close> is
  \<^verbatim>\<open>sys.get_int_max_str_digits()\<close>: 4300 unless configured, and 0 where the
  interpreter has no limit.
\<close>

record env =
  git :: "string list \<Rightarrow> process_result"
  read_text :: "string \<Rightarrow> string + string"
  fromstring :: "string \<Rightarrow> parse_result"
  max_str_digits :: nat

text \<open>
  A path is kept as the string git printed. \<^verbatim>\<open>Path(file_path)\<close> leaves such a
  string as it is (git prints no empty and no \<^verbatim>\<open>.\<close> component), so
  \<^verbatim>\<open>as_posix()\<close> is the identity here; \<^verbatim>\<open>.name\<close> is the last component.
\<close>

definition path_name :: "string \<Rightarrow> string" where
  "path_name p = rev (takeWhile (\<lambda>c. c \<noteq> CHR ''/'') (rev p))"

subsection \<open>\<^verbatim>\<open>run_git_command\<close> (lines 7 to 15)\<close>

definition run_git_command :: "env \<Rightarrow> string list \<Rightarrow> string comp" where
  "run_git_command env args =
     try_except
       (case git env args of
          Completed stdout \<Rightarrow> return stdout
        | NonZeroExit stderr \<Rightarrow> raise (CalledProcessError args stderr)
        | NotStarted msg \<Rightarrow> raise (OtherException msg))
       is_CalledProcessError
       (\<lambda>e. bind (print (GitCommandFailed args)) (\<lambda>_.
            bind (print (GitErrorText (exn_text e))) (\<lambda>_.
            raise (SystemExit 1))))"

subsection \<open>\<^verbatim>\<open>extract_rule_ids_from_xml\<close> (lines 34 to 55)\<close>

text \<open>
  \<^verbatim>\<open>root.findall(".//rule")\<close>: every element below the root whose tag is
  \<^verbatim>\<open>rule\<close>, at any depth, in document order; the root itself is not among them.
\<close>

fun descendants :: "element \<Rightarrow> element list" where
  "descendants (Element t a cs) = concat (map (\<lambda>c. c # descendants c) cs)"

definition findall_rule :: "element \<Rightarrow> element list" where
  "findall_rule root = filter (\<lambda>e. tag e = ''rule'') (descendants root)"

text \<open>\<^verbatim>\<open>rule.get("id")\<close>: the attribute's value, or \<^verbatim>\<open>None\<close>.\<close>

definition get_id :: "element \<Rightarrow> string option" where
  "get_id rule = map_of (attrib rule) ''id''"

text \<open>
  \<^verbatim>\<open>int(s)\<close> on a string that passed \<^verbatim>\<open>isdigit()\<close>: the decimal value when
  every character is an ASCII digit; \<^verbatim>\<open>ValueError\<close> when a superscript digit
  occurs, and when the string is longer than the interpreter's limit (which applies above
  640 digits only, leading zeros counted).
\<close>

definition digit_value :: "char \<Rightarrow> int" where
  "digit_value c = int (of_char c) - 48"

definition decimal_value :: "string \<Rightarrow> int" where
  "decimal_value s = foldl (\<lambda>n c. 10 * n + digit_value c) 0 s"

definition int_of_str :: "nat \<Rightarrow> string \<Rightarrow> exn + int" where
  "int_of_str limit s =
     (if \<not> (s \<noteq> [] \<and> list_all isdecimal_char s) then Inl (ValueError s)
      else if 640 < length s \<and> 0 < limit \<and> limit < length s then Inl (ValueError s)
      else Inr (decimal_value s))"

text \<open>
  The loop of lines 46 to 49 over the elements found, with the list \<^verbatim>\<open>ids\<close> built
  so far: it returns the list as it stands when the loop ends or when
  \<^verbatim>\<open>int\<close> raises, with the exception raised.
\<close>

fun collect_ids :: "nat \<Rightarrow> element list \<Rightarrow> int list \<Rightarrow> int list \<times> exn option" where
  "collect_ids limit [] ids = (ids, None)"
| "collect_ids limit (rule # rules) ids =
     (case get_id rule of
        None \<Rightarrow> collect_ids limit rules ids
      | Some rule_id \<Rightarrow>
          if rule_id \<noteq> [] \<and> isdigit rule_id
          then (case int_of_str limit rule_id of
                  Inl e \<Rightarrow> (ids, Some e)
                | Inr n \<Rightarrow> collect_ids limit rules (ids @ [n]))
          else collect_ids limit rules ids)"

text \<open>
  The body of the \<^verbatim>\<open>try\<close> (lines 38 to 49): the list \<^verbatim>\<open>ids\<close> as the body left
  it (empty at the early return of line 40) and the exception it raised, if any.
\<close>

definition extract_body :: "env \<Rightarrow> string \<Rightarrow> int list \<times> exn option" where
  "extract_body env content =
     (if strip content = [] then ([], None)
      else case fromstring env (''<root>'' @ content @ ''</root>'') of
             NotWellFormed msg \<Rightarrow> ([], Some (ParseError msg))
           | ParserFailed msg \<Rightarrow> ([], Some (OtherException msg))
           | Parsed root \<Rightarrow> collect_ids (max_str_digits env) (findall_rule root) [])"

text \<open>
  The handlers of lines 50 to 54, then \<^verbatim>\<open>return ids\<close>. An exception that neither
  clause matches leaves the function.
\<close>

definition extract_rule_ids_from_xml :: "env \<Rightarrow> string \<Rightarrow> int list comp" where
  "extract_rule_ids_from_xml env content =
     (case extract_body env content of
        (ids, None) \<Rightarrow> return ids
      | (ids, Some e) \<Rightarrow>
          if is_ParseError e
          then bind (print (XmlParseError (exn_text e))) (\<lambda>_.
               bind (print (ContentPreview (take 200 content))) (\<lambda>_.
               return ids))
          else if is_Exception e
          then bind (print (UnexpectedXmlError (exn_text e))) (\<lambda>_. return ids)
          else raise e)"

subsection \<open>\<^verbatim>\<open>get_changed_rule_files\<close> (lines 17 to 32)\<close>

text \<open>A \<^verbatim>\<open>for\<close> loop whose body returns nothing: it stops at the first exception.\<close>

fun for_each :: "'a list \<Rightarrow> ('a \<Rightarrow> unit comp) \<Rightarrow> unit comp" where
  "for_each [] body = return ()"
| "for_each (x # xs) body = bind (body x) (\<lambda>_. for_each xs body)"

definition is_rule_file :: "string \<Rightarrow> bool" where
  "is_rule_file f = (startswith f ''rules/'' \<and> endswith f ''.xml'')"

text \<open>One line of \<^verbatim>\<open>git diff --name-status\<close>: what it adds to \<^verbatim>\<open>changed_files\<close>.\<close>

definition changed_entry :: "string \<Rightarrow> (string \<times> string) list" where
  "changed_entry line =
     (case split_maxsplit1 (strip line) of
        [status, file_path] \<Rightarrow> if is_rule_file file_path then [(status, file_path)] else []
      | _ \<Rightarrow> [])"

definition get_changed_rule_files :: "env \<Rightarrow> (string \<times> string) list comp" where
  "get_changed_rule_files env =
     try_except
       (bind (run_git_command env [''git'', ''diff'', ''--name-status'', ''origin/main...HEAD''])
          (\<lambda>output. return (concat (map changed_entry (splitlines (strip output))))))
       is_Exception
       (\<lambda>e. bind (print (FailedToGetChangedFiles (exn_text e))) (\<lambda>_. raise (SystemExit 1)))"

subsection \<open>\<^verbatim>\<open>get_rule_ids_per_file_in_main\<close> (lines 57 to 77)\<close>

text \<open>
  \<^verbatim>\<open>rule_id_to_files\<close>, a \<^verbatim>\<open>defaultdict(set)\<close>: the keys in insertion order, each
  with its set of files. A set is the list of its members; \<^verbatim>\<open>add\<close> leaves a set
  that has the member as it is (\<^const>\<open>List.insert\<close>).
\<close>

type_synonym index = "(int \<times> string list) list"

text \<open>\<^verbatim>\<open>rule_id_to_files.get(rule_id, set())\<close>\<close>

definition index_get :: "index \<Rightarrow> int \<Rightarrow> string list" where
  "index_get d rule_id = (case map_of d rule_id of None \<Rightarrow> [] | Some files \<Rightarrow> files)"

text \<open>\<^verbatim>\<open>rule_id_to_files[rule_id].add(file)\<close>: a missing key is created with the empty set first.\<close>

definition index_add :: "index \<Rightarrow> int \<Rightarrow> string \<Rightarrow> index" where
  "index_add d rule_id file =
     (case map_of d rule_id of
        None \<Rightarrow> d @ [(rule_id, [file])]
      | Some files \<Rightarrow> map (\<lambda>(k, v). if k = rule_id then (k, List.insert file v) else (k, v)) d)"

text \<open>\<^verbatim>\<open>set(rule_id_to_files.keys())\<close>\<close>

definition index_keys :: "index \<Rightarrow> int set" where
  "index_keys d = set (map fst d)"

text \<open>The loop of lines 65 to 73 over \<^verbatim>\<open>xml_files\<close>, from the dictionary built so far.\<close>

fun index_files :: "env \<Rightarrow> string list \<Rightarrow> index \<Rightarrow> index comp" where
  "index_files env [] d = return d"
| "index_files env (file # files) d =
     bind (try_except
             (bind (run_git_command env [''git'', ''show'', ''origin/main:'' @ file]) (\<lambda>content.
              bind (extract_rule_ids_from_xml env content) (\<lambda>rule_ids.
              return (fold (\<lambda>rule_id d. index_add d rule_id file) rule_ids d))))
             is_CalledProcessError
             (\<lambda>e. bind (print (CouldNotReadFromMain file)) (\<lambda>_. return d)))
       (\<lambda>d. index_files env files d)"

definition get_rule_ids_per_file_in_main :: "env \<Rightarrow> index comp" where
  "get_rule_ids_per_file_in_main env =
     try_except
       (bind (run_git_command env [''git'', ''fetch'', ''origin'', ''main'']) (\<lambda>_.
        bind (run_git_command env [''git'', ''ls-tree'', ''-r'', ''origin/main'', ''--name-only''])
          (\<lambda>files_output.
        index_files env (filter is_rule_file (splitlines files_output)) [])))
       is_Exception
       (\<lambda>e. bind (print (FailedToGetMainIds (exn_text e))) (\<lambda>_. raise (SystemExit 1)))"

subsection \<open>\<^verbatim>\<open>get_rule_ids_from_main_version\<close> (lines 79 to 86)\<close>

definition get_rule_ids_from_main_version :: "env \<Rightarrow> string \<Rightarrow> int list comp" where
  "get_rule_ids_from_main_version env file_path =
     try_except
       (bind (run_git_command env [''git'', ''show'', ''origin/main:'' @ file_path])
          (\<lambda>content. extract_rule_ids_from_xml env content))
       is_CalledProcessError
       (\<lambda>e. return [])"

subsection \<open>\<^verbatim>\<open>detect_duplicates\<close> (lines 88 to 91)\<close>

text \<open>\<^verbatim>\<open>Counter(rule_ids)\<close>: each value with its number of occurrences, in order of first occurrence.\<close>

fun counter_incr :: "int \<Rightarrow> (int \<times> nat) list \<Rightarrow> (int \<times> nat) list" where
  "counter_incr x [] = [(x, 1)]"
| "counter_incr x ((k, c) # kcs) =
     (if k = x then (k, c + 1) # kcs else (k, c) # counter_incr x kcs)"

definition Counter :: "int list \<Rightarrow> (int \<times> nat) list" where
  "Counter rule_ids = fold counter_incr rule_ids []"

definition detect_duplicates :: "int list \<Rightarrow> int list" where
  "detect_duplicates rule_ids = map fst (filter (\<lambda>(rule_id, count). count > 1) (Counter rule_ids))"

subsection \<open>\<^verbatim>\<open>print_conflicts\<close> (lines 93 to 100)\<close>

definition print_conflicts :: "int set \<Rightarrow> index \<Rightarrow> unit comp" where
  "print_conflicts conflicting_ids rule_id_to_files =
     bind (print ConflictsDetected) (\<lambda>_.
     for_each (sorted_list_of_set conflicting_ids) (\<lambda>rule_id.
       bind (print (RuleIdFoundIn rule_id)) (\<lambda>_.
       for_each (sort (index_get rule_id_to_files rule_id)) (\<lambda>f. print (FoundInFile f)))))"

subsection \<open>\<^verbatim>\<open>validate_rule_id_range\<close> (lines 102 to 107)\<close>

definition validate_rule_id_range :: "int list \<Rightarrow> unit comp" where
  "validate_rule_id_range rule_ids =
     (let invalid_ids = filter (\<lambda>rule_id. \<not> (100000 \<le> rule_id \<and> rule_id \<le> 120000)) rule_ids
      in if invalid_ids \<noteq> []
         then bind (print (RangeWarning (sort invalid_ids))) (\<lambda>_. print RangeAdvice)
         else return ())"

subsection \<open>\<^verbatim>\<open>main\<close> (lines 109 to 173)\<close>

definition read_working_copy :: "env \<Rightarrow> string \<Rightarrow> string comp" where
  "read_working_copy env path =
     (case read_text env path of Inl msg \<Rightarrow> raise (OtherException msg) | Inr text \<Rightarrow> return text)"

text \<open>
  Lines 134 to 171: the checks on a file whose \<^verbatim>\<open>dev_ids\<close> is not empty.
\<close>

definition reconcile :: "env \<Rightarrow> index \<Rightarrow> string \<Rightarrow> string \<Rightarrow> int list \<Rightarrow> unit comp" where
  "reconcile env rule_id_to_files_main status path dev_ids =
     bind (validate_rule_id_range dev_ids) (\<lambda>_.
     let duplicates = detect_duplicates dev_ids in
     if duplicates \<noteq> []
     then bind (print (DuplicateIdsDetected (path_name path) (sort duplicates))) (\<lambda>_.
          raise (SystemExit 1))
     else if status = ''A''
     then (let conflicting_ids = set dev_ids \<inter> index_keys rule_id_to_files_main in
           if conflicting_ids \<noteq> {}
           then bind (print_conflicts conflicting_ids rule_id_to_files_main) (\<lambda>_.
                raise (SystemExit 1))
           else print (NoConflictsInNewFile (path_name path)))
     else if status = ''M''
     then bind (get_rule_ids_from_main_version env path) (\<lambda>main_ids.
          if set dev_ids = set main_ids
          then print (IdsUnchanged (path_name path))
          else (let new_or_changed_ids = set dev_ids - set main_ids;
                    conflicting_ids = new_or_changed_ids \<inter> index_keys rule_id_to_files_main in
                if conflicting_ids \<noteq> {}
                then bind (print_conflicts conflicting_ids rule_id_to_files_main) (\<lambda>_.
                     raise (SystemExit 1))
                else print (NoConflictingIds (path_name path))))
     else if status = ''D''
     then print (FileDeleted (path_name path))
     else return ())"

text \<open>
  The body of the loop of line 121 for one changed file. The \<^verbatim>\<open>try\<close> of lines 124 to
  129 yields \<^verbatim>\<open>dev_ids\<close>, or nothing when its handler ran \<^verbatim>\<open>continue\<close>.
\<close>

definition check_file :: "env \<Rightarrow> index \<Rightarrow> string \<times> string \<Rightarrow> unit comp" where
  "check_file env rule_id_to_files_main changed =
     (case changed of (status, path) \<Rightarrow>
        bind (print (CheckingFile (path_name path))) (\<lambda>_.
        bind (try_except
                (bind (read_working_copy env path) (\<lambda>dev_content.
                 bind (extract_rule_ids_from_xml env dev_content) (\<lambda>dev_ids.
                 return (Some dev_ids))))
                is_Exception
                (\<lambda>e. bind (print (CouldNotRead (path_name path) (exn_text e))) (\<lambda>_.
                     return None)))
          (\<lambda>read. case read of
               None \<Rightarrow> return ()
             | Some dev_ids \<Rightarrow>
                 if dev_ids = []
                 then print (NoRuleIdsFound (path_name path))
                 else reconcile env rule_id_to_files_main status path dev_ids)))"

definition main :: "env \<Rightarrow> unit comp" where
  "main env =
     bind (print Starting) (\<lambda>_.
     bind (get_changed_rule_files env) (\<lambda>changed_files.
     if changed_files = []
     then print NoRuleFilesChanged
     else bind (get_rule_ids_per_file_in_main env) (\<lambda>rule_id_to_files_main.
          bind (print (CheckingFiles (map (\<lambda>(status, f). path_name f) changed_files))) (\<lambda>_.
          bind (for_each changed_files (check_file env rule_id_to_files_main)) (\<lambda>_.
          print AllPassed)))))"

text \<open>
  The exit status of the process: 0 when \<^verbatim>\<open>main\<close> returns, the argument of
  \<^verbatim>\<open>sys.exit\<close>, and 1 for an exception that nothing caught.
\<close>

definition exit_status :: "unit comp \<Rightarrow> nat" where
  "exit_status run = (case snd run of Inr _ \<Rightarrow> 0 | Inl (SystemExit code) \<Rightarrow> code | Inl _ \<Rightarrow> 1)"

subsection \<open>A small repository to run the script on\<close>

text \<open>
  Rule files, and what \<^verbatim>\<open>ET.fromstring\<close> returns for each of them once wrapped in
  \<^verbatim>\<open><root>\<close>; every other text is taken as not well-formed.
\<close>

definition xml_a :: string where
  \<open>xml_a = ''<rule id="100010"/>''\<close>

definition xml_b :: string where
  \<open>xml_b = ''<group name="local"><rule id="100010"/><rule id="100020"/></group>''\<close>

definition xml_new :: string where
  \<open>xml_new = ''<rule id="100030"/>''\<close>

definition xml_dup :: string where
  \<open>xml_dup = ''<rule id="100050"/><rule id="100050"/>''\<close>

definition xml_range :: string where
  \<open>xml_range = ''<rule id="99999"/><rule id="100000"/><rule id="120000"/><rule id="120001"/>''\<close>

definition xml_norule :: string where
  \<open>xml_norule = ''<group name="local"/>''\<close>

definition xml_unclosed :: string where
  \<open>xml_unclosed = ''<rule id="100010">''\<close>

text \<open>The second identifier of this file is the single character U+00B2, superscript two.\<close>

definition xml_superscript :: string where
  \<open>xml_superscript =
     ''<rule id="100001"/><rule id="'' @ [CHR 0xB2] @ ''"/><rule id="100002"/>''\<close>

definition rule_elem :: "string \<Rightarrow> element" where
  "rule_elem rule_id = Element ''rule'' [(''id'', rule_id)] []"

definition example_parser :: "string \<Rightarrow> parse_result" where
  "example_parser text =
     (if text = ''<root>'' @ xml_a @ ''</root>''
      then Parsed (Element ''root'' [] [rule_elem ''100010''])
      else if text = ''<root>'' @ xml_b @ ''</root>''
      then Parsed (Element ''root'' []
             [Element ''group'' [(''name'', ''local'')] [rule_elem ''100010'', rule_elem ''100020'']])
      else if text = ''<root>'' @ xml_new @ ''</root>''
      then Parsed (Element ''root'' [] [rule_elem ''100030''])
      else if text = ''<root>'' @ xml_dup @ ''</root>''
      then Parsed (Element ''root'' [] [rule_elem ''100050'', rule_elem ''100050''])
      else if text = ''<root>'' @ xml_range @ ''</root>''
      then Parsed (Element ''root'' []
             [rule_elem ''99999'', rule_elem ''100000'', rule_elem ''120000'', rule_elem ''120001''])
      else if text = ''<root>'' @ xml_norule @ ''</root>''
      then Parsed (Element ''root'' [] [Element ''group'' [(''name'', ''local'')] []])
      else if text = ''<root>'' @ xml_superscript @ ''</root>''
      then Parsed (Element ''root'' []
             [rule_elem ''100001'', rule_elem [CHR 0xB2], rule_elem ''100002''])
      else NotWellFormed ''mismatched tag'')"

text \<open>
  \<^verbatim>\<open>origin/main\<close> holds \<^verbatim>\<open>README.md\<close>, \<^verbatim>\<open>rules/a.xml\<close> and
  \<^verbatim>\<open>rules/dup.xml\<close>; the branch adds \<^verbatim>\<open>rules/b.xml\<close>.
\<close>

definition example_git :: "string list \<Rightarrow> process_result" where
  "example_git args =
     (if args = [''git'', ''diff'', ''--name-status'', ''origin/main...HEAD'']
      then Completed (''A'' @ [CHR 0x09] @ ''rules/b.xml'' @ [CHR 0x0A])
      else if args = [''git'', ''fetch'', ''origin'', ''main'']
      then Completed []
      else if args = [''git'', ''ls-tree'', ''-r'', ''origin/main'', ''--name-only'']
      then Completed (''README.md'' @ [CHR 0x0A] @ ''rules/a.xml'' @ [CHR 0x0A]
                      @ ''rules/dup.xml'' @ [CHR 0x0A])
      else if args = [''git'', ''show'', ''origin/main:rules/a.xml'']
      then Completed xml_a
      else if args = [''git'', ''show'', ''origin/main:rules/dup.xml'']
      then Completed xml_dup
      else NonZeroExit ''fatal: invalid object name'')"

definition example_read_text :: "string \<Rightarrow> string + string" where
  "example_read_text path =
     (if path = ''rules/a.xml'' then Inr xml_b
      else if path = ''rules/b.xml'' then Inr xml_b
      else if path = ''rules/new.xml'' then Inr xml_new
      else if path = ''rules/dup.xml'' then Inr xml_dup
      else if path = ''rules/range.xml'' then Inr xml_range
      else Inl ''No such file or directory'')"

definition example_env :: env where
  "example_env = \<lparr> git = example_git, read_text = example_read_text,
     fromstring = example_parser, max_str_digits = 4300 \<rparr>"

text \<open>
  The same repository where the branch modifies \<^verbatim>\<open>rules/new.xml\<close>, a path that
  \<^verbatim>\<open>origin/main\<close> does not have: \<^verbatim>\<open>git show\<close> exits with status 128 there.
\<close>

definition env_modified_absent :: env where
  "env_modified_absent = example_env \<lparr> git := (\<lambda>args.
     if args = [''git'', ''diff'', ''--name-status'', ''origin/main...HEAD'']
     then Completed (''M'' @ [CHR 0x09] @ ''rules/new.xml'' @ [CHR 0x0A])
     else if args = [''git'', ''show'', ''origin/main:rules/new.xml'']
     then NonZeroExit ''fatal: path does not exist in origin/main''
     else example_git args) \<rparr>"

text \<open>
  The same repository where the branch adds \<^verbatim>\<open>rules/new.xml\<close> and the content of
  \<^verbatim>\<open>rules/dup.xml\<close> cannot be fetched from \<^verbatim>\<open>origin/main\<close>.
\<close>

definition env_unfetchable :: env where
  "env_unfetchable = example_env \<lparr> git := (\<lambda>args.
     if args = [''git'', ''diff'', ''--name-status'', ''origin/main...HEAD'']
     then Completed (''A'' @ [CHR 0x09] @ ''rules/new.xml'' @ [CHR 0x0A])
     else if args = [''git'', ''show'', ''origin/main:rules/dup.xml'']
     then NonZeroExit ''fatal: unable to read blob''
     else example_git args) \<rparr>"

text \<open>
  The same repository where the branch modifies \<^verbatim>\<open>rules/dup.xml\<close>, whose working copy
  declares 100050 twice.
\<close>

definition env_duplicate :: env where
  "env_duplicate = example_env \<lparr> git := (\<lambda>args.
     if args = [''git'', ''diff'', ''--name-status'', ''origin/main...HEAD'']
     then Completed (''M'' @ [CHR 0x09] @ ''rules/dup.xml'' @ [CHR 0x0A])
     else example_git args) \<rparr>"

text \<open>
  The same repository where the branch adds \<^verbatim>\<open>rules/range.xml\<close>, with identifiers
  on both sides of each bound of the recommended range.
\<close>

definition env_range :: env where
  "env_range = example_env \<lparr> git := (\<lambda>args.
     if args = [''git'', ''diff'', ''--name-status'', ''origin/main...HEAD'']
     then Completed (''A'' @ [CHR 0x09] @ ''rules/range.xml'' @ [CHR 0x0A])
     else example_git args) \<rparr>"


section \<open>Properties\<close>

subsection \<open>Computations\<close>

lemma bind_Inr: "bind (out, Inr x) f = (out @ fst (f x), snd (f x))"
  by (simp add: bind_def split: prod.splits)

lemma bind_Inl: "bind (out, Inl e) f = (out, Inl e)"
  by (simp add: bind_def)

lemma bind_return: "bind (return x) f = f x"
  by (simp add: return_def bind_Inr)

lemma bind_raise: "bind (raise e) f = raise e"
  by (simp add: raise_def bind_Inl)

lemma bind_print: "bind (print ev) f = (ev # fst (f ()), snd (f ()))"
  by (simp add: print_def bind_Inr)

lemma try_except_Inr: "try_except (out, Inr x) catches h = (out, Inr x)"
  by (simp add: try_except_def)

lemma try_except_Inl:
  "try_except (out, Inl e) catches h =
     (if catches e then (out @ fst (h e), snd (h e)) else (out, Inl e))"
  by (simp add: try_except_def split: prod.splits)

lemmas comp_simps = bind_Inr bind_Inl bind_return bind_raise bind_print try_except_Inr
  try_except_Inl return_def raise_def print_def

subsection \<open>The extractor\<close>

lemma collect_ids_exn:
  "collect_ids limit rules ids = (ids', Some e) \<Longrightarrow> \<exists>msg. e = ValueError msg"
  by (induction rules arbitrary: ids)
     (auto simp: int_of_str_def split: option.splits if_splits sum.splits)

lemma extract_body_exn:
  "extract_body env content = (ids, Some e) \<Longrightarrow> is_Exception e"
  by (auto simp: extract_body_def split: if_splits parse_result.splits dest: collect_ids_exn)

lemma extract_returns:
  "\<exists>out ids. extract_rule_ids_from_xml env content = (out, Inr ids)"
proof (cases "extract_body env content")
  case (Pair ids r)
  show ?thesis
  proof (cases r)
    case None
    with Pair show ?thesis by (simp add: extract_rule_ids_from_xml_def return_def)
  next
    case (Some e)
    with Pair have "is_Exception e" by (simp add: extract_body_exn)
    with Pair Some show ?thesis
      by (simp add: extract_rule_ids_from_xml_def comp_simps)
  qed
qed

lemma collect_ids_append:
  "collect_ids limit (xs @ ys) ids =
     (case collect_ids limit xs ids of
        (ids', None) \<Rightarrow> collect_ids limit ys ids'
      | (ids', Some e) \<Rightarrow> (ids', Some e))"
  by (induction xs arbitrary: ids) (auto split: option.splits sum.splits)

lemma extract_empty: "strip content = [] \<Longrightarrow> extract_rule_ids_from_xml env content = ([], Inr [])"
  by (simp add: extract_rule_ids_from_xml_def extract_body_def return_def)

lemma extract_not_well_formed:
  "strip content \<noteq> [] \<Longrightarrow> fromstring env (''<root>'' @ content @ ''</root>'') = NotWellFormed msg \<Longrightarrow>
   extract_rule_ids_from_xml env content = ([XmlParseError msg, ContentPreview (take 200 content)], Inr [])"
  by (simp add: extract_rule_ids_from_xml_def extract_body_def comp_simps)

lemma extract_parser_failed:
  "strip content \<noteq> [] \<Longrightarrow> fromstring env (''<root>'' @ content @ ''</root>'') = ParserFailed msg \<Longrightarrow>
   extract_rule_ids_from_xml env content = ([UnexpectedXmlError msg], Inr [])"
  by (simp add: extract_rule_ids_from_xml_def extract_body_def comp_simps)

lemma extract_parsed:
  "strip content \<noteq> [] \<Longrightarrow> fromstring env (''<root>'' @ content @ ''</root>'') = Parsed root \<Longrightarrow>
   extract_body env content = collect_ids (max_str_digits env) (findall_rule root) []"
  by (simp add: extract_body_def)

lemma extract_no_rule:
  "fromstring env (''<root>'' @ content @ ''</root>'') = Parsed root \<Longrightarrow> findall_rule root = [] \<Longrightarrow>
   extract_rule_ids_from_xml env content = ([], Inr [])"
  by (simp add: extract_rule_ids_from_xml_def extract_body_def return_def)

lemma extract_conversion_fails:
  assumes "strip content \<noteq> []"
    and "fromstring env (''<root>'' @ content @ ''</root>'') = Parsed root"
    and "findall_rule root = before @ rule # after"
    and "collect_ids (max_str_digits env) before [] = (ids, None)"
    and "get_id rule = Some rule_id" and "isdigit rule_id"
    and "int_of_str (max_str_digits env) rule_id = Inl e"
  shows "extract_rule_ids_from_xml env content = ([UnexpectedXmlError (exn_text e)], Inr ids)"
proof -
  from assms(6) have ne: "rule_id \<noteq> []" by (simp add: isdigit_def)
  have "collect_ids (max_str_digits env) (rule # after) ids = (ids, Some e)"
    using assms(5,6,7) ne by simp
  with assms(3,4) have "collect_ids (max_str_digits env) (findall_rule root) [] = (ids, Some e)"
    by (simp add: collect_ids_append)
  with assms(1,2) have body: "extract_body env content = (ids, Some e)"
    by (simp add: extract_parsed)
  then have "\<exists>msg. e = ValueError msg"
    using assms(1,2) \<open>collect_ids (max_str_digits env) (findall_rule root) [] = (ids, Some e)\<close>
    by (auto dest: collect_ids_exn)
  with body show ?thesis
    by (auto simp: extract_rule_ids_from_xml_def comp_simps)
qed

text \<open>
  Claim C10. The extractor returns a list for every input and lets no exception out.
  When the \<^verbatim>\<open>id\<close> of a \<^verbatim>\<open>rule\<close> element passes \<^verbatim>\<open>isdigit()\<close> and
  \<^verbatim>\<open>int\<close> raises on it, the function prints the error and returns the identifiers
  collected from the elements before that one; when the parser raises something other
  than \<^verbatim>\<open>ParseError\<close>, it prints the error and returns the empty list.
\<close>

theorem extract_rule_ids_from_xml_total:
  "(\<exists>out ids. extract_rule_ids_from_xml env content = (out, Inr ids))
   \<and> (\<forall>root before rule after ids rule_id e.
        strip content \<noteq> []
        \<and> fromstring env (''<root>'' @ content @ ''</root>'') = Parsed root
        \<and> findall_rule root = before @ rule # after
        \<and> collect_ids (max_str_digits env) before [] = (ids, None)
        \<and> get_id rule = Some rule_id \<and> isdigit rule_id
        \<and> int_of_str (max_str_digits env) rule_id = Inl e
        \<longrightarrow> extract_rule_ids_from_xml env content = ([UnexpectedXmlError (exn_text e)], Inr ids))
   \<and> (\<forall>msg. strip content \<noteq> []
        \<and> fromstring env (''<root>'' @ content @ ''</root>'') = ParserFailed msg
        \<longrightarrow> extract_rule_ids_from_xml env content = ([UnexpectedXmlError msg], Inr []))"
  using extract_returns [of env content]
  by (blast intro: extract_conversion_fails extract_parser_failed)

theorem extract_rule_ids_from_xml_total_witness:
  "strip xml_superscript \<noteq> []
   \<and> fromstring example_env (''<root>'' @ xml_superscript @ ''</root>'')
       = Parsed (Element ''root'' [] [rule_elem ''100001'', rule_elem [CHR 0xB2], rule_elem ''100002''])
   \<and> findall_rule (Element ''root'' [] [rule_elem ''100001'', rule_elem [CHR 0xB2], rule_elem ''100002''])
       = [rule_elem ''100001''] @ rule_elem [CHR 0xB2] # [rule_elem ''100002'']
   \<and> collect_ids (max_str_digits example_env) [rule_elem ''100001''] [] = ([100001], None)
   \<and> get_id (rule_elem [CHR 0xB2]) = Some [CHR 0xB2] \<and> isdigit [CHR 0xB2]
   \<and> int_of_str (max_str_digits example_env) [CHR 0xB2] = Inl (ValueError [CHR 0xB2])
   \<and> extract_rule_ids_from_xml example_env xml_superscript
       = ([UnexpectedXmlError [CHR 0xB2]], Inr [100001])"
proof -
  have h1: "strip xml_superscript \<noteq> []" by code_simp
  have h2: "fromstring example_env (''<root>'' @ xml_superscript @ ''</root>'')
       = Parsed (Element ''root'' [] [rule_elem ''100001'', rule_elem [CHR 0xB2], rule_elem ''100002''])"
    by code_simp
  have h3: "findall_rule (Element ''root'' [] [rule_elem ''100001'', rule_elem [CHR 0xB2], rule_elem ''100002''])
       = [rule_elem ''100001''] @ rule_elem [CHR 0xB2] # [rule_elem ''100002'']"
    by code_simp
  have h4: "collect_ids (max_str_digits example_env) [rule_elem ''100001''] [] = ([100001], None)"
    by code_simp
  have h5: "get_id (rule_elem [CHR 0xB2]) = Some [CHR 0xB2]" by code_simp
  have h6: "isdigit [CHR 0xB2]" by code_simp
  have h7: "int_of_str (max_str_digits example_env) [CHR 0xB2] = Inl (ValueError [CHR 0xB2])"
    by code_simp
  from extract_rule_ids_from_xml_total [of example_env xml_superscript] h1 h2 h3 h4 h5 h6 h7
  have "extract_rule_ids_from_xml example_env xml_superscript
       = ([UnexpectedXmlError (exn_text (ValueError [CHR 0xB2]))], Inr [100001])"
    by blast
  with h1 h2 h3 h4 h5 h6 h7 show ?thesis by simp
qed

text \<open>
  Claim C7. Empty content, content of whitespace only and content without a
  \<^verbatim>\<open>rule\<close> element give the empty list, with nothing printed and nothing raised.
  Content that is not well-formed even inside the synthetic root gives the empty list
  too, after a diagnostic of two lines, the parser's message and the first 200
  characters of the content. In every case the function returns.
\<close>

theorem extract_rule_ids_from_xml_tolerant:
  "extract_rule_ids_from_xml env [] = ([], Inr [])
   \<and> (strip content = [] \<longrightarrow> extract_rule_ids_from_xml env content = ([], Inr []))
   \<and> (\<forall>root. fromstring env (''<root>'' @ content @ ''</root>'') = Parsed root
          \<and> findall_rule root = []
        \<longrightarrow> extract_rule_ids_from_xml env content = ([], Inr []))
   \<and> (\<forall>msg. strip content \<noteq> []
          \<and> fromstring env (''<root>'' @ content @ ''</root>'') = NotWellFormed msg
        \<longrightarrow> extract_rule_ids_from_xml env content
              = ([XmlParseError msg, ContentPreview (take 200 content)], Inr []))
   \<and> (\<exists>out ids. extract_rule_ids_from_xml env content = (out, Inr ids))"
proof -
  have "strip [] = []" by (simp add: strip_def)
  then have "extract_rule_ids_from_xml env [] = ([], Inr [])" by (rule extract_empty)
  then show ?thesis
    using extract_returns [of env content]
    by (blast intro: extract_empty extract_no_rule extract_not_well_formed)
qed

theorem extract_rule_ids_from_xml_tolerant_witness:
  "(strip [CHR '' '', CHR 0x0A] = []
      \<and> extract_rule_ids_from_xml example_env [CHR '' '', CHR 0x0A] = ([], Inr []))
   \<and> (fromstring example_env (''<root>'' @ xml_norule @ ''</root>'')
        = Parsed (Element ''root'' [] [Element ''group'' [(''name'', ''local'')] []])
      \<and> findall_rule (Element ''root'' [] [Element ''group'' [(''name'', ''local'')] []]) = []
      \<and> extract_rule_ids_from_xml example_env xml_norule = ([], Inr []))
   \<and> (strip xml_unclosed \<noteq> []
      \<and> fromstring example_env (''<root>'' @ xml_unclosed @ ''</root>'')
          = NotWellFormed ''mismatched tag''
      \<and> extract_rule_ids_from_xml example_env xml_unclosed
          = ([XmlParseError ''mismatched tag'', ContentPreview (take 200 xml_unclosed)], Inr []))"
proof -
  have a: "strip [CHR '' '', CHR 0x0A] = []" by code_simp
  have b1: "fromstring example_env (''<root>'' @ xml_norule @ ''</root>'')
        = Parsed (Element ''root'' [] [Element ''group'' [(''name'', ''local'')] []])"
    by code_simp
  have b2: "findall_rule (Element ''root'' [] [Element ''group'' [(''name'', ''local'')] []]) = []"
    by code_simp
  have c1: "strip xml_unclosed \<noteq> []" by code_simp
  have c2: "fromstring example_env (''<root>'' @ xml_unclosed @ ''</root>'')
          = NotWellFormed ''mismatched tag''"
    by code_simp
  from a extract_rule_ids_from_xml_tolerant [of example_env "[CHR '' '', CHR 0x0A]"]
  have ra: "extract_rule_ids_from_xml example_env [CHR '' '', CHR 0x0A] = ([], Inr [])"
    by blast
  from b1 b2 extract_rule_ids_from_xml_tolerant [of example_env xml_norule]
  have rb: "extract_rule_ids_from_xml example_env xml_norule = ([], Inr [])"
    by blast
  from c1 c2 extract_rule_ids_from_xml_tolerant [of example_env xml_unclosed]
  have rc: "extract_rule_ids_from_xml example_env xml_unclosed
          = ([XmlParseError ''mismatched tag'', ContentPreview (take 200 xml_unclosed)], Inr [])"
    by blast
  from a b1 b2 c1 c2 ra rb rc show ?thesis by blast
qed

subsection \<open>Counting occurrences\<close>

lemma counter_incr_keys:
  "map fst (counter_incr x kcs) = (if x \<in> set (map fst kcs) then map fst kcs else map fst kcs @ [x])"
  by (induction x kcs rule: counter_incr.induct) auto

lemma counter_incr_distinct:
  "distinct (map fst kcs) \<Longrightarrow> distinct (map fst (counter_incr x kcs))"
  by (simp add: counter_incr_keys)

lemma counter_incr_map_of:
  "map_of (counter_incr x kcs) k =
     (if k = x then Some (case map_of kcs x of None \<Rightarrow> 1 | Some c \<Rightarrow> c + 1) else map_of kcs k)"
  by (induction x kcs rule: counter_incr.induct) auto

lemma fold_counter_incr:
  "distinct (map fst kcs) \<Longrightarrow>
   distinct (map fst (fold counter_incr xs kcs))
   \<and> (\<forall>k. map_of (fold counter_incr xs kcs) k =
         (case map_of kcs k of
            None \<Rightarrow> if k \<in> set xs then Some (count_list xs k) else None
          | Some c \<Rightarrow> Some (c + count_list xs k)))"
proof (induction xs arbitrary: kcs)
  case Nil
  then show ?case by (auto split: option.splits)
next
  case (Cons x xs)
  from Cons.prems have d: "distinct (map fst (counter_incr x kcs))"
    by (rule counter_incr_distinct)
  from Cons.IH [OF d] show ?case
    by (auto simp: counter_incr_map_of split: option.splits)
qed

lemma Counter_distinct: "distinct (map fst (Counter xs))"
  using fold_counter_incr [of "[]" xs] by (simp add: Counter_def)

lemma Counter_map_of:
  "map_of (Counter xs) k = (if k \<in> set xs then Some (count_list xs k) else None)"
  using fold_counter_incr [of "[]" xs] by (simp add: Counter_def)

lemma Counter_member:
  "(k, c) \<in> set (Counter xs) \<longleftrightarrow> k \<in> set xs \<and> c = count_list xs k"
proof -
  have "(k, c) \<in> set (Counter xs) \<longleftrightarrow> map_of (Counter xs) k = Some c"
    using Counter_distinct [of xs] by simp
  then show ?thesis
    by (auto simp: Counter_map_of)
qed

lemma distinct_count_list: "distinct xs \<longleftrightarrow> (\<forall>a. count_list xs a \<le> 1)"
proof (induction xs)
  case Nil
  then show ?case by simp
next
  case (Cons x xs)
  show ?case
  proof (cases "x \<in> set xs")
    case True
    then have "count_list xs x \<noteq> 0" by (simp add: count_list_0_iff)
    then have "\<not> count_list (x # xs) x \<le> 1" by simp
    with True show ?thesis by auto
  next
    case False
    then have zero: "count_list xs x = 0" by simp
    have "(\<forall>a. count_list (x # xs) a \<le> 1) \<longleftrightarrow> (\<forall>a. count_list xs a \<le> 1)"
    proof
      assume h: "\<forall>a. count_list (x # xs) a \<le> 1"
      show "\<forall>a. count_list xs a \<le> 1"
      proof
        fix a
        from h have "count_list (x # xs) a \<le> 1" ..
        then show "count_list xs a \<le> 1" by (simp split: if_splits)
      qed
    next
      assume h: "\<forall>a. count_list xs a \<le> 1"
      show "\<forall>a. count_list (x # xs) a \<le> 1"
      proof
        fix a
        from h have "count_list xs a \<le> 1" ..
        with zero show "count_list (x # xs) a \<le> 1" by (cases "x = a") simp_all
      qed
    qed
    with False Cons.IH show ?thesis by simp
  qed
qed

lemma set_detect_duplicates:
  "set (detect_duplicates rule_ids) = {rule_id. 1 < count_list rule_ids rule_id}"
proof -
  have "\<And>k. 1 < count_list rule_ids k \<Longrightarrow> k \<in> set rule_ids"
    by (metis count_list_0_iff not_less_zero)
  then show ?thesis
    by (auto simp: detect_duplicates_def Counter_member image_iff)
qed

lemma detect_duplicates_Nil_iff:
  "detect_duplicates rule_ids = [] \<longleftrightarrow> distinct rule_ids"
proof -
  have "detect_duplicates rule_ids = [] \<longleftrightarrow> set (detect_duplicates rule_ids) = {}"
    by simp
  also have "\<dots> \<longleftrightarrow> (\<forall>k. count_list rule_ids k \<le> 1)"
    by (auto simp: set_detect_duplicates not_less)
  also have "\<dots> \<longleftrightarrow> distinct rule_ids"
    by (simp add: distinct_count_list)
  finally show ?thesis .
qed

lemma distinct_detect_duplicates: "distinct (detect_duplicates rule_ids)"
  unfolding detect_duplicates_def
  using Counter_distinct [of rule_ids]
  by (simp add: distinct_map_filter)

subsection \<open>Loops and the helpers of \<^verbatim>\<open>main\<close>\<close>

lemma for_each_append:
  "for_each (xs @ ys) body = bind (for_each xs body) (\<lambda>_. for_each ys body)"
proof (induction xs)
  case Nil
  then show ?case by (simp add: bind_return)
next
  case (Cons x xs)
  obtain out r where b: "body x = (out, r)" by (cases "body x")
  show ?case
  proof (cases r)
    case (Inl e)
    with b show ?thesis by (simp add: bind_Inl)
  next
    case (Inr u)
    with b Cons show ?thesis by (simp add: bind_Inr bind_def split: prod.splits sum.splits)
  qed
qed

lemma for_each_returns:
  "(\<And>x. x \<in> set xs \<Longrightarrow> snd (body x) = Inr ()) \<Longrightarrow>
   for_each xs body = (concat (map (\<lambda>x. fst (body x)) xs), Inr ())"
proof (induction xs)
  case Nil
  then show ?case by (simp add: return_def)
next
  case (Cons x xs)
  from Cons.prems obtain out where b: "body x = (out, Inr ())"
    by (metis list.set_intros(1) prod.collapse)
  from Cons have "for_each xs body = (concat (map (\<lambda>x. fst (body x)) xs), Inr ())"
    by simp
  with b show ?case
    by (simp add: bind_Inr)
qed

lemma for_each_stops:
  assumes "snd (for_each before body) = Inr ()" and "body x = (out, Inl e)"
  shows "for_each (before @ x # after) body = (fst (for_each before body) @ out, Inl e)"
proof -
  from assms(1) have "for_each before body = (fst (for_each before body), Inr ())"
    by (metis prod.collapse)
  then have "bind (for_each before body) (\<lambda>_. for_each (x # after) body)
      = (fst (for_each before body) @ fst (for_each (x # after) body),
         snd (for_each (x # after) body))"
    by (metis bind_Inr)
  moreover from assms(2) have "for_each (x # after) body = (out, Inl e)"
    by (simp add: bind_Inl)
  ultimately show ?thesis
    by (simp add: for_each_append)
qed

lemma print_conflicts_eq:
  "print_conflicts conflicting_ids rule_id_to_files =
     (ConflictsDetected #
      concat (map (\<lambda>rule_id. RuleIdFoundIn rule_id
                     # map FoundInFile (sort (index_get rule_id_to_files rule_id)))
                (sorted_list_of_set conflicting_ids)),
      Inr ())"
proof -
  have files: "\<And>fs. for_each fs (\<lambda>f. print (FoundInFile f)) = (map FoundInFile fs, Inr ())"
  proof -
    fix fs :: "string list"
    have "for_each fs (\<lambda>f. print (FoundInFile f))
        = (concat (map (\<lambda>f. fst (print (FoundInFile f))) fs), Inr ())"
      by (rule for_each_returns) (simp add: print_def)
    also have "concat (map (\<lambda>f. fst (print (FoundInFile f))) fs) = map FoundInFile fs"
      by (induction fs) (simp_all add: print_def)
    finally show "for_each fs (\<lambda>f. print (FoundInFile f)) = (map FoundInFile fs, Inr ())" .
  qed
  have one: "\<And>rule_id. bind (print (RuleIdFoundIn rule_id)) (\<lambda>_.
        for_each (sort (index_get rule_id_to_files rule_id)) (\<lambda>f. print (FoundInFile f)))
      = (RuleIdFoundIn rule_id # map FoundInFile (sort (index_get rule_id_to_files rule_id)), Inr ())"
    by (simp add: bind_print files)
  let ?line = "\<lambda>rule_id. (RuleIdFoundIn rule_id
      # map FoundInFile (sort (index_get rule_id_to_files rule_id)), Inr ()) :: unit comp"
  have "print_conflicts conflicting_ids rule_id_to_files
      = bind (print ConflictsDetected) (\<lambda>_. for_each (sorted_list_of_set conflicting_ids) ?line)"
    by (simp only: print_conflicts_def one)
  also have "for_each (sorted_list_of_set conflicting_ids) ?line
      = (concat (map (\<lambda>rule_id. fst (?line rule_id)) (sorted_list_of_set conflicting_ids)), Inr ())"
    by (rule for_each_returns) simp
  finally show ?thesis
    by (simp add: bind_print)
qed

lemma validate_rule_id_range_eq:
  "validate_rule_id_range rule_ids =
     (if \<exists>rule_id \<in> set rule_ids. rule_id < 100000 \<or> 120000 < rule_id
      then [RangeWarning (sort (filter (\<lambda>rule_id. rule_id < 100000 \<or> 120000 < rule_id) rule_ids)),
            RangeAdvice]
      else [],
      Inr ())"
proof -
  have same: "(\<lambda>rule_id::int. \<not> (100000 \<le> rule_id \<and> rule_id \<le> 120000))
      = (\<lambda>rule_id. rule_id < 100000 \<or> 120000 < rule_id)"
    by (auto simp: fun_eq_iff)
  show ?thesis
    unfolding validate_rule_id_range_def same Let_def
    by (auto simp: comp_simps filter_empty_conv)
qed

lemma run_git_command_Completed:
  "git env args = Completed stdout \<Longrightarrow> run_git_command env args = ([], Inr stdout)"
  by (simp add: run_git_command_def comp_simps)

lemma run_git_command_NonZeroExit:
  "git env args = NonZeroExit stderr \<Longrightarrow>
   run_git_command env args = ([GitCommandFailed args, GitErrorText stderr], Inl (SystemExit 1))"
  by (simp add: run_git_command_def comp_simps)

lemma run_git_command_NotStarted:
  "git env args = NotStarted msg \<Longrightarrow>
   run_git_command env args = ([], Inl (OtherException msg))"
  by (simp add: run_git_command_def comp_simps)

lemma run_git_command_raises:
  "run_git_command env args = (out, Inl e) \<Longrightarrow> \<not> is_CalledProcessError e"
  by (cases "git env args")
     (auto simp: run_git_command_Completed run_git_command_NonZeroExit run_git_command_NotStarted)

lemma main_version_Completed:
  "git env [''git'', ''show'', ''origin/main:'' @ file_path] = Completed content \<Longrightarrow>
   get_rule_ids_from_main_version env file_path = extract_rule_ids_from_xml env content"
proof -
  assume g: "git env [''git'', ''show'', ''origin/main:'' @ file_path] = Completed content"
  obtain out ids where "extract_rule_ids_from_xml env content = (out, Inr ids)"
    using extract_returns by blast
  with g show ?thesis
    by (simp add: get_rule_ids_from_main_version_def run_git_command_Completed comp_simps)
qed

lemma main_version_NonZeroExit:
  "git env [''git'', ''show'', ''origin/main:'' @ file_path] = NonZeroExit stderr \<Longrightarrow>
   get_rule_ids_from_main_version env file_path =
     ([GitCommandFailed [''git'', ''show'', ''origin/main:'' @ file_path], GitErrorText stderr],
      Inl (SystemExit 1))"
  by (simp add: get_rule_ids_from_main_version_def run_git_command_NonZeroExit comp_simps)

lemma extract_events:
  "extract_rule_ids_from_xml env content = (out, r) \<Longrightarrow> ev \<in> set out \<Longrightarrow>
   (\<exists>msg. ev = XmlParseError msg \<or> ev = ContentPreview msg \<or> ev = UnexpectedXmlError msg)"
  by (cases "extract_body env content")
     (auto simp: extract_rule_ids_from_xml_def comp_simps split: option.splits if_splits)

lemma check_file_read:
  assumes "read_text env path = Inr content"
    and "extract_rule_ids_from_xml env content = (out, Inr dev_ids)"
  shows "check_file env idx (status, path) =
     (CheckingFile (path_name path) # out @
        (if dev_ids = [] then [NoRuleIdsFound (path_name path)]
         else fst (reconcile env idx status path dev_ids)),
      if dev_ids = [] then Inr () else snd (reconcile env idx status path dev_ids))"
  using assms
  by (simp add: check_file_def read_working_copy_def comp_simps)

lemma check_file_unreadable:
  "read_text env path = Inl msg \<Longrightarrow>
   check_file env idx (status, path) =
     ([CheckingFile (path_name path), CouldNotRead (path_name path) msg], Inr ())"
  by (simp add: check_file_def read_working_copy_def comp_simps)

lemma reconcile_duplicates:
  "\<not> distinct dev_ids \<Longrightarrow>
   reconcile env idx status path dev_ids =
     (fst (validate_rule_id_range dev_ids)
        @ [DuplicateIdsDetected (path_name path) (sort (detect_duplicates dev_ids))],
      Inl (SystemExit 1))"
  by (simp add: reconcile_def validate_rule_id_range_eq detect_duplicates_Nil_iff comp_simps)

lemma reconcile_added:
  "distinct dev_ids \<Longrightarrow>
   reconcile env idx ''A'' path dev_ids =
     (if set dev_ids \<inter> index_keys idx \<noteq> {}
      then (fst (validate_rule_id_range dev_ids)
              @ fst (print_conflicts (set dev_ids \<inter> index_keys idx) idx),
            Inl (SystemExit 1))
      else (fst (validate_rule_id_range dev_ids) @ [NoConflictsInNewFile (path_name path)],
            Inr ()))"
  by (simp add: reconcile_def validate_rule_id_range_eq detect_duplicates_Nil_iff comp_simps
      print_conflicts_eq Let_def)

lemma reconcile_modified:
  assumes "distinct dev_ids"
    and "get_rule_ids_from_main_version env path = (out_main, Inr main_ids)"
  shows "reconcile env idx ''M'' path dev_ids =
     (if set dev_ids = set main_ids
      then (fst (validate_rule_id_range dev_ids) @ out_main @ [IdsUnchanged (path_name path)],
            Inr ())
      else if (set dev_ids - set main_ids) \<inter> index_keys idx \<noteq> {}
      then (fst (validate_rule_id_range dev_ids) @ out_main
              @ fst (print_conflicts ((set dev_ids - set main_ids) \<inter> index_keys idx) idx),
            Inl (SystemExit 1))
      else (fst (validate_rule_id_range dev_ids) @ out_main @ [NoConflictingIds (path_name path)],
            Inr ()))"
  using assms
  by (simp add: reconcile_def validate_rule_id_range_eq detect_duplicates_Nil_iff comp_simps
      print_conflicts_eq Let_def)

lemma reconcile_modified_raises:
  assumes "distinct dev_ids"
    and "get_rule_ids_from_main_version env path = (out_main, Inl e)"
  shows "reconcile env idx ''M'' path dev_ids =
     (fst (validate_rule_id_range dev_ids) @ out_main, Inl e)"
  using assms
  by (simp add: reconcile_def validate_rule_id_range_eq detect_duplicates_Nil_iff comp_simps)

subsection \<open>The checks on one changed file\<close>

lemma extract_ignores_git:
  "extract_rule_ids_from_xml (env\<lparr>git := g\<rparr>) content = extract_rule_ids_from_xml env content"
proof -
  have "extract_body (env\<lparr>git := g\<rparr>) content = extract_body env content"
    by (simp add: extract_body_def split: parse_result.splits)
  then show ?thesis
    by (simp add: extract_rule_ids_from_xml_def)
qed

lemma reconcile_starts:
  "\<exists>rest. fst (reconcile env idx status path dev_ids)
     = fst (validate_rule_id_range dev_ids) @ rest"
proof -
  obtain v where "validate_rule_id_range dev_ids = (v, Inr ())"
    using validate_rule_id_range_eq by blast
  then show ?thesis
    by (simp add: reconcile_def bind_Inr)
qed

lemma no_conflict_event_before_reconciliation:
  assumes "extract_rule_ids_from_xml env content = (out, r)"
  shows "ConflictsDetected \<notin> set (CheckingFile name # out @ fst (validate_rule_id_range dev_ids))"
proof -
  have "ConflictsDetected \<notin> set out"
    using extract_events [OF assms] by blast
  then show ?thesis
    by (simp add: validate_rule_id_range_eq)
qed

lemma conflict_lines_member:
  assumes "finite conflicting_ids" and "rule_id \<in> conflicting_ids"
  shows "RuleIdFoundIn rule_id \<in> set (fst (print_conflicts conflicting_ids idx))
       \<and> (\<forall>f \<in> set (index_get idx rule_id).
            FoundInFile f \<in> set (fst (print_conflicts conflicting_ids idx)))"
  using assms by (auto simp: print_conflicts_eq)

lemma conflict_header: "ConflictsDetected \<in> set (fst (print_conflicts conflicting_ids idx))"
  by (simp add: print_conflicts_eq)

subsection \<open>The whole run\<close>

text \<open>
  Once git has listed the changed rule files and the index is built, the run is the
  loop over the changed files: it prints what the loop prints, ends as the loop ends,
  and announces success only when the loop completes.
\<close>

lemma main_run:
  assumes "get_changed_rule_files env = (out_changed, Inr changed_files)"
    and "changed_files \<noteq> []"
    and "get_rule_ids_per_file_in_main env = (out_index, Inr idx)"
  shows "main env =
     (Starting # out_changed @ out_index
        @ CheckingFiles (map (\<lambda>(status, f). path_name f) changed_files)
        # fst (for_each changed_files (check_file env idx))
        @ (case snd (for_each changed_files (check_file env idx)) of
             Inl e \<Rightarrow> [] | Inr u \<Rightarrow> [AllPassed]),
      snd (for_each changed_files (check_file env idx)))"
proof -
  obtain out r where loop: "for_each changed_files (check_file env idx) = (out, r)"
    by (cases "for_each changed_files (check_file env idx)")
  show ?thesis
  proof (cases r)
    case (Inl e)
    with loop assms show ?thesis
      by (simp add: main_def comp_simps)
  next
    case (Inr u)
    with loop assms show ?thesis
      by (simp add: main_def comp_simps)
  qed
qed

lemma main_no_changes:
  "get_changed_rule_files env = (out_changed, Inr []) \<Longrightarrow>
   main env = (Starting # out_changed @ [NoRuleFilesChanged], Inr ())"
  by (simp add: main_def comp_simps)

lemma main_stops_at:
  assumes "get_changed_rule_files env = (out_changed, Inr (before @ changed # after))"
    and "get_rule_ids_per_file_in_main env = (out_index, Inr idx)"
    and "snd (for_each before (check_file env idx)) = Inr ()"
    and "check_file env idx changed = (out, Inl e)"
  shows "main env =
     (Starting # out_changed @ out_index
        @ CheckingFiles (map (\<lambda>(status, f). path_name f) (before @ changed # after))
        # fst (for_each before (check_file env idx)) @ out,
      Inl e)"
proof -
  have "for_each (before @ changed # after) (check_file env idx)
      = (fst (for_each before (check_file env idx)) @ out, Inl e)"
    using assms(3,4) by (rule for_each_stops)
  moreover have "before @ changed # after \<noteq> []" by simp
  ultimately show ?thesis
    using main_run [OF assms(1) _ assms(2)] by simp
qed

lemma main_goes_on:
  assumes "get_changed_rule_files env = (out_changed, Inr (before @ changed # after))"
    and "get_rule_ids_per_file_in_main env = (out_index, Inr idx)"
    and "snd (for_each before (check_file env idx)) = Inr ()"
    and "check_file env idx changed = (out, Inr ())"
  shows "snd (main env) = snd (for_each after (check_file env idx))
       \<and> (\<exists>rest. fst (main env) =
            Starting # out_changed @ out_index
              @ CheckingFiles (map (\<lambda>(status, f). path_name f) (before @ changed # after))
              # fst (for_each before (check_file env idx)) @ out @ rest)"
proof -
  from assms(3) have b: "for_each before (check_file env idx)
      = (fst (for_each before (check_file env idx)), Inr ())"
    by (metis prod.collapse)
  have "for_each (before @ changed # after) (check_file env idx)
      = bind (for_each before (check_file env idx))
          (\<lambda>_. for_each (changed # after) (check_file env idx))"
    by (rule for_each_append)
  also have "\<dots> = (fst (for_each before (check_file env idx))
        @ fst (for_each (changed # after) (check_file env idx)),
      snd (for_each (changed # after) (check_file env idx)))"
    by (subst b) (rule bind_Inr)
  also have "for_each (changed # after) (check_file env idx)
      = (out @ fst (for_each after (check_file env idx)),
         snd (for_each after (check_file env idx)))"
    using assms(4) by (simp add: bind_Inr)
  finally have loop: "for_each (before @ changed # after) (check_file env idx)
      = (fst (for_each before (check_file env idx)) @ out
           @ fst (for_each after (check_file env idx)),
         snd (for_each after (check_file env idx)))"
    by simp
  have "before @ changed # after \<noteq> []" by simp
  from main_run [OF assms(1) this assms(2)] show ?thesis
    unfolding loop by simp
qed

lemma exit_status_SystemExit: "snd run = Inl (SystemExit code) \<Longrightarrow> exit_status run = code"
  by (simp add: exit_status_def)

lemma exit_status_returns: "snd run = Inr u \<Longrightarrow> exit_status run = 0"
  by (simp add: exit_status_def)

subsection \<open>Internal duplicates\<close>

text \<open>
  Claim C3. A changed file that was read and whose identifiers repeat stops the run: the
  loop body prints the identifiers that occur more than once, each once and in
  increasing order, and exits with status 1. The outcome is the same for every status,
  every index and every answer of git, so no comparison with another file has taken
  place; no conflict is printed; and the loop over the changed files ends there. When
  git has listed the changed files, the index is built and the files before this one
  have passed, \<^verbatim>\<open>main\<close> ends at this file: the report of the duplicates is the last
  line it prints and the exit status of the process is 1.
\<close>

theorem duplicate_ids_stop_the_run:
  assumes "read_text env path = Inr content"
    and "extract_rule_ids_from_xml env content = (out, Inr dev_ids)"
    and "\<not> distinct dev_ids"
  shows "check_file env idx (status, path) =
           (CheckingFile (path_name path) # out @ fst (validate_rule_id_range dev_ids)
              @ [DuplicateIdsDetected (path_name path) (sort (detect_duplicates dev_ids))],
            Inl (SystemExit 1))
       \<and> set (sort (detect_duplicates dev_ids)) = {rule_id. 1 < count_list dev_ids rule_id}
       \<and> distinct (sort (detect_duplicates dev_ids))
       \<and> check_file (env\<lparr>git := g\<rparr>) idx' (status', path) = check_file env idx (status, path)
       \<and> ConflictsDetected \<notin> set (fst (check_file env idx (status, path)))
       \<and> (snd (for_each before (check_file env idx)) = Inr () \<longrightarrow>
            for_each (before @ (status, path) # after) (check_file env idx) =
              (fst (for_each before (check_file env idx)) @ fst (check_file env idx (status, path)),
               Inl (SystemExit 1)))
       \<and> (get_changed_rule_files env = (out_changed, Inr (before @ (status, path) # after))
            \<and> get_rule_ids_per_file_in_main env = (out_index, Inr idx)
            \<and> snd (for_each before (check_file env idx)) = Inr () \<longrightarrow>
            main env =
              (Starting # out_changed @ out_index
                 @ CheckingFiles (map (\<lambda>(status, f). path_name f)
                     (before @ (status, path) # after))
                 # fst (for_each before (check_file env idx))
                 @ CheckingFile (path_name path) # out @ fst (validate_rule_id_range dev_ids)
                 @ [DuplicateIdsDetected (path_name path) (sort (detect_duplicates dev_ids))],
               Inl (SystemExit 1))
            \<and> exit_status (main env) = 1)"
proof -
  from assms(3) have ne: "dev_ids \<noteq> []" by auto
  have here: "check_file env idx (status, path) =
           (CheckingFile (path_name path) # out @ fst (validate_rule_id_range dev_ids)
              @ [DuplicateIdsDetected (path_name path) (sort (detect_duplicates dev_ids))],
            Inl (SystemExit 1))"
    using ne assms(3) by (simp add: check_file_read [OF assms(1,2)] reconcile_duplicates)
  have "read_text (env\<lparr>git := g\<rparr>) path = Inr content"
    using assms(1) by simp
  moreover have "extract_rule_ids_from_xml (env\<lparr>git := g\<rparr>) content = (out, Inr dev_ids)"
    using assms(2) by (simp add: extract_ignores_git)
  ultimately have there: "check_file (env\<lparr>git := g\<rparr>) idx' (status', path) =
           (CheckingFile (path_name path) # out @ fst (validate_rule_id_range dev_ids)
              @ [DuplicateIdsDetected (path_name path) (sort (detect_duplicates dev_ids))],
            Inl (SystemExit 1))"
    using ne assms(3) by (simp add: check_file_read reconcile_duplicates)
  have quiet: "ConflictsDetected \<notin> set (fst (check_file env idx (status, path)))"
    using no_conflict_event_before_reconciliation [OF assms(2), of "path_name path" dev_ids]
    by (simp add: here)
  have stop: "snd (for_each before (check_file env idx)) = Inr () \<longrightarrow>
            for_each (before @ (status, path) # after) (check_file env idx) =
              (fst (for_each before (check_file env idx)) @ fst (check_file env idx (status, path)),
               Inl (SystemExit 1))"
  proof
    assume "snd (for_each before (check_file env idx)) = Inr ()"
    moreover have "check_file env idx (status, path)
        = (fst (check_file env idx (status, path)), Inl (SystemExit 1))"
      by (simp add: here)
    ultimately show "for_each (before @ (status, path) # after) (check_file env idx) =
              (fst (for_each before (check_file env idx)) @ fst (check_file env idx (status, path)),
               Inl (SystemExit 1))"
      by (rule for_each_stops)
  qed
  have run: "get_changed_rule_files env = (out_changed, Inr (before @ (status, path) # after))
            \<and> get_rule_ids_per_file_in_main env = (out_index, Inr idx)
            \<and> snd (for_each before (check_file env idx)) = Inr () \<longrightarrow>
            main env =
              (Starting # out_changed @ out_index
                 @ CheckingFiles (map (\<lambda>(status, f). path_name f)
                     (before @ (status, path) # after))
                 # fst (for_each before (check_file env idx))
                 @ CheckingFile (path_name path) # out @ fst (validate_rule_id_range dev_ids)
                 @ [DuplicateIdsDetected (path_name path) (sort (detect_duplicates dev_ids))],
               Inl (SystemExit 1))
            \<and> exit_status (main env) = 1"
  proof
    assume h: "get_changed_rule_files env = (out_changed, Inr (before @ (status, path) # after))
            \<and> get_rule_ids_per_file_in_main env = (out_index, Inr idx)
            \<and> snd (for_each before (check_file env idx)) = Inr ()"
    then have m: "main env =
              (Starting # out_changed @ out_index
                 @ CheckingFiles (map (\<lambda>(status, f). path_name f)
                     (before @ (status, path) # after))
                 # fst (for_each before (check_file env idx))
                 @ CheckingFile (path_name path) # out @ fst (validate_rule_id_range dev_ids)
                 @ [DuplicateIdsDetected (path_name path) (sort (detect_duplicates dev_ids))],
               Inl (SystemExit 1))"
      using main_stops_at [OF _ _ _ here, of out_changed before after out_index] by simp
    then have "exit_status (main env) = 1"
      by (simp add: exit_status_def)
    with m show "main env =
              (Starting # out_changed @ out_index
                 @ CheckingFiles (map (\<lambda>(status, f). path_name f)
                     (before @ (status, path) # after))
                 # fst (for_each before (check_file env idx))
                 @ CheckingFile (path_name path) # out @ fst (validate_rule_id_range dev_ids)
                 @ [DuplicateIdsDetected (path_name path) (sort (detect_duplicates dev_ids))],
               Inl (SystemExit 1))
            \<and> exit_status (main env) = 1"
      by (rule conjI)
  qed
  have names: "set (sort (detect_duplicates dev_ids)) = {rule_id. 1 < count_list dev_ids rule_id}"
    by (simp add: set_detect_duplicates)
  have once: "distinct (sort (detect_duplicates dev_ids))"
    by (simp add: distinct_detect_duplicates)
  from there have same: "check_file (env\<lparr>git := g\<rparr>) idx' (status', path)
      = check_file env idx (status, path)"
    by (simp only: here)
  from here names once same quiet stop run show ?thesis
    by (intro conjI)
qed

theorem duplicate_ids_stop_the_run_witness:
  "read_text env_duplicate ''rules/dup.xml'' = Inr xml_dup
   \<and> extract_rule_ids_from_xml env_duplicate xml_dup = ([], Inr [100050, 100050])
   \<and> \<not> distinct [100050, 100050 :: int]
   \<and> get_changed_rule_files env_duplicate
       = ([], Inr ([] @ (''M'', ''rules/dup.xml'') # []))
   \<and> get_rule_ids_per_file_in_main env_duplicate
       = ([], Inr [(100010, [''rules/a.xml'']), (100050, [''rules/dup.xml''])])
   \<and> snd (for_each [] (check_file env_duplicate
          [(100010, [''rules/a.xml'']), (100050, [''rules/dup.xml''])])) = Inr ()
   \<and> check_file env_duplicate [(100010, [''rules/a.xml'']), (100050, [''rules/dup.xml''])]
         (''M'', ''rules/dup.xml'')
       = ([CheckingFile ''dup.xml'', DuplicateIdsDetected ''dup.xml'' [100050]],
          Inl (SystemExit 1))
   \<and> check_file (env_duplicate\<lparr>git := (\<lambda>args. Completed [])\<rparr>) [] (''D'', ''rules/dup.xml'')
       = check_file env_duplicate [(100010, [''rules/a.xml'']), (100050, [''rules/dup.xml''])]
           (''M'', ''rules/dup.xml'')
   \<and> main env_duplicate
       = ([Starting, CheckingFiles [''dup.xml''], CheckingFile ''dup.xml'',
           DuplicateIdsDetected ''dup.xml'' [100050]],
          Inl (SystemExit 1))
   \<and> exit_status (main env_duplicate) = 1"
proof -
  let ?idx = "[(100010, [''rules/a.xml'']), (100050, [''rules/dup.xml''])]"
  have h1: "read_text env_duplicate ''rules/dup.xml'' = Inr xml_dup" by code_simp
  have h2: "extract_rule_ids_from_xml env_duplicate xml_dup = ([], Inr [100050, 100050])"
    by code_simp
  have h3: "\<not> distinct [100050, 100050 :: int]" by simp
  have h4: "get_changed_rule_files env_duplicate
       = ([], Inr ([] @ (''M'', ''rules/dup.xml'') # []))"
    by code_simp
  have h5: "get_rule_ids_per_file_in_main env_duplicate = ([], Inr ?idx)"
    by code_simp
  have h6: "snd (for_each [] (check_file env_duplicate ?idx)) = Inr ()"
    by (simp add: return_def)
  have v: "fst (validate_rule_id_range [100050, 100050]) = []" by code_simp
  have d: "sort (detect_duplicates [100050, 100050]) = [100050]" by code_simp
  have n: "path_name ''rules/dup.xml'' = ''dup.xml''" by code_simp
  have e: "fst (for_each [] (check_file env_duplicate ?idx)) = []" by (simp add: return_def)
  note inst = duplicate_ids_stop_the_run [OF h1 h2 h3, where idx = ?idx and status = "''M''"
      and g = "\<lambda>args. Completed []" and idx' = "[]" and status' = "''D''"
      and before = "[]" and after = "[]" and out_changed = "[]" and out_index = "[]"]
  from inst have "check_file env_duplicate ?idx (''M'', ''rules/dup.xml'') =
      (CheckingFile (path_name ''rules/dup.xml'') # []
         @ fst (validate_rule_id_range [100050, 100050])
         @ [DuplicateIdsDetected (path_name ''rules/dup.xml'')
              (sort (detect_duplicates [100050, 100050]))],
       Inl (SystemExit 1))"
    by (rule conjunct1)
  then have one: "check_file env_duplicate ?idx (''M'', ''rules/dup.xml'')
       = ([CheckingFile ''dup.xml'', DuplicateIdsDetected ''dup.xml'' [100050]],
          Inl (SystemExit 1))"
    by (simp add: v d n)
  from inst have same: "check_file (env_duplicate\<lparr>git := (\<lambda>args. Completed [])\<rparr>) []
         (''D'', ''rules/dup.xml'')
       = check_file env_duplicate ?idx (''M'', ''rules/dup.xml'')"
    by blast
  from inst h4 h5 h6 have "main env_duplicate =
      (Starting # [] @ []
         @ CheckingFiles (map (\<lambda>(status, f). path_name f) ([] @ (''M'', ''rules/dup.xml'') # []))
         # fst (for_each [] (check_file env_duplicate ?idx))
         @ CheckingFile (path_name ''rules/dup.xml'') # []
         @ fst (validate_rule_id_range [100050, 100050])
         @ [DuplicateIdsDetected (path_name ''rules/dup.xml'')
              (sort (detect_duplicates [100050, 100050]))],
       Inl (SystemExit 1))
     \<and> exit_status (main env_duplicate) = 1"
    by blast
  then have run: "main env_duplicate
       = ([Starting, CheckingFiles [''dup.xml''], CheckingFile ''dup.xml'',
           DuplicateIdsDetected ''dup.xml'' [100050]],
          Inl (SystemExit 1))
     \<and> exit_status (main env_duplicate) = 1"
    by (simp add: v d n return_def exit_status_def)
  from run have run1: "main env_duplicate
       = ([Starting, CheckingFiles [''dup.xml''], CheckingFile ''dup.xml'',
           DuplicateIdsDetected ''dup.xml'' [100050]],
          Inl (SystemExit 1))"
    by (rule conjunct1)
  from run have run2: "exit_status (main env_duplicate) = 1"
    by (rule conjunct2)
  from h1 h2 h3 h4 h5 h6 one same run1 run2 show ?thesis
    by (intro conjI)
qed

subsection \<open>New files\<close>

lemma added_file_checked:
  assumes "read_text env path = Inr content"
    and "extract_rule_ids_from_xml env content = (out, Inr dev_ids)"
    and "dev_ids \<noteq> []"
    and "distinct dev_ids"
  shows "(snd (check_file env idx (''A'', path)) = Inl (SystemExit 1)
            \<longleftrightarrow> set dev_ids \<inter> index_keys idx \<noteq> {})
       \<and> (ConflictsDetected \<in> set (fst (check_file env idx (''A'', path)))
            \<longleftrightarrow> set dev_ids \<inter> index_keys idx \<noteq> {})
       \<and> (set dev_ids \<inter> index_keys idx \<noteq> {} \<longrightarrow>
            check_file env idx (''A'', path) =
              (CheckingFile (path_name path) # out @ fst (validate_rule_id_range dev_ids)
                 @ ConflictsDetected
                 # concat (map (\<lambda>rule_id. RuleIdFoundIn rule_id
                                  # map FoundInFile (sort (index_get idx rule_id)))
                     (sorted_list_of_set (set dev_ids \<inter> index_keys idx))),
               Inl (SystemExit 1)))
       \<and> (\<forall>rule_id \<in> set dev_ids \<inter> index_keys idx.
            RuleIdFoundIn rule_id \<in> set (fst (check_file env idx (''A'', path)))
            \<and> (\<forall>f \<in> set (index_get idx rule_id).
                 FoundInFile f \<in> set (fst (check_file env idx (''A'', path)))))
       \<and> (set dev_ids \<inter> index_keys idx = {} \<longrightarrow>
            check_file env idx (''A'', path) =
              (CheckingFile (path_name path) # out @ fst (validate_rule_id_range dev_ids)
                 @ [NoConflictsInNewFile (path_name path)],
               Inr ()))
       \<and> (set dev_ids \<inter> index_keys idx \<noteq> {}
            \<and> snd (for_each before (check_file env idx)) = Inr () \<longrightarrow>
            snd (for_each (before @ (''A'', path) # after) (check_file env idx))
              = Inl (SystemExit 1))"
proof -
  let ?C = "set dev_ids \<inter> index_keys idx"
  let ?pre = "CheckingFile (path_name path) # out @ fst (validate_rule_id_range dev_ids)"
  have here: "check_file env idx (''A'', path) =
      (if ?C \<noteq> {} then (?pre @ fst (print_conflicts ?C idx), Inl (SystemExit 1))
       else (?pre @ [NoConflictsInNewFile (path_name path)], Inr ()))"
    using assms(3,4) by (simp add: check_file_read [OF assms(1,2)] reconcile_added)
  have quiet: "ConflictsDetected \<notin> set ?pre"
    by (rule no_conflict_event_before_reconciliation [OF assms(2)])
  have fin: "finite ?C" by simp
  show ?thesis
  proof (cases "?C = {}")
    case True
    with here have eq: "check_file env idx (''A'', path)
        = (?pre @ [NoConflictsInNewFile (path_name path)], Inr ())"
      by simp
    from quiet have "ConflictsDetected \<notin> set (?pre @ [NoConflictsInNewFile (path_name path)])"
      by simp
    with True show ?thesis
      unfolding eq by simp
  next
    case False
    with here have eq: "check_file env idx (''A'', path)
        = (?pre @ fst (print_conflicts ?C idx), Inl (SystemExit 1))"
      by simp
    have members: "\<forall>rule_id \<in> ?C.
        RuleIdFoundIn rule_id \<in> set (?pre @ fst (print_conflicts ?C idx))
        \<and> (\<forall>f \<in> set (index_get idx rule_id).
             FoundInFile f \<in> set (?pre @ fst (print_conflicts ?C idx)))"
      using conflict_lines_member [OF fin] by auto
    have header: "ConflictsDetected \<in> set (?pre @ fst (print_conflicts ?C idx))"
      using conflict_header by simp
    have stop: "snd (for_each before (check_file env idx)) = Inr () \<longrightarrow>
        snd (for_each (before @ (''A'', path) # after) (check_file env idx))
          = Inl (SystemExit 1)"
    proof
      assume "snd (for_each before (check_file env idx)) = Inr ()"
      then have "for_each (before @ (''A'', path) # after) (check_file env idx)
          = (fst (for_each before (check_file env idx)) @ ?pre @ fst (print_conflicts ?C idx),
             Inl (SystemExit 1))"
        using eq by (rule for_each_stops)
      then show "snd (for_each (before @ (''A'', path) # after) (check_file env idx))
          = Inl (SystemExit 1)"
        by simp
    qed
    have report: "?pre @ fst (print_conflicts ?C idx) =
        CheckingFile (path_name path) # out @ fst (validate_rule_id_range dev_ids)
          @ ConflictsDetected
          # concat (map (\<lambda>rule_id. RuleIdFoundIn rule_id
                           # map FoundInFile (sort (index_get idx rule_id)))
              (sorted_list_of_set ?C))"
      by (simp add: print_conflicts_eq)
    from False members header stop report show ?thesis
      unfolding eq fst_conv snd_conv by (intro conjI) simp_all
  qed
qed

text \<open>
  Claim C1. For a file of status \<^verbatim>\<open>A\<close> that was read, whose identifiers are not
  empty and do not repeat: the loop body exits with status 1 exactly when one of the
  identifiers is a key of the index, and prints the conflict report exactly then. The
  report lists the conflicting identifiers in increasing order, each followed by the
  files the index holds for it; with no common identifier the body prints that the new
  file has no conflict and returns. For the run: when git has listed the changed files,
  the index is the one \<^verbatim>\<open>get_rule_ids_per_file_in_main\<close> built and the files before
  this one have passed, a conflict makes \<^verbatim>\<open>main\<close> end at this file, the report
  being the last lines it prints, with exit status 1; without a conflict
  \<^verbatim>\<open>main\<close> goes on to the files after this one and ends as they make it end; and
  when this file is the last one, the exit status is 1 exactly when there is a conflict
  and 0 exactly when there is none.
\<close>

theorem added_file_conflict:
  assumes "read_text env path = Inr content"
    and "extract_rule_ids_from_xml env content = (out, Inr dev_ids)"
    and "dev_ids \<noteq> []"
    and "distinct dev_ids"
  shows "((get_changed_rule_files env = (out_changed, Inr (before @ (''A'', path) # after))
          \<and> get_rule_ids_per_file_in_main env = (out_index, Inr idx)
          \<and> snd (for_each before (check_file env idx)) = Inr () \<longrightarrow>
          (set dev_ids \<inter> index_keys idx \<noteq> {} \<longrightarrow>
             main env =
               (Starting # out_changed @ out_index
                  @ CheckingFiles (map (\<lambda>(status, f). path_name f)
                      (before @ (''A'', path) # after))
                  # fst (for_each before (check_file env idx))
                  @ CheckingFile (path_name path) # out @ fst (validate_rule_id_range dev_ids)
                  @ ConflictsDetected
                  # concat (map (\<lambda>rule_id. RuleIdFoundIn rule_id
                                   # map FoundInFile (sort (index_get idx rule_id)))
                      (sorted_list_of_set (set dev_ids \<inter> index_keys idx))),
                Inl (SystemExit 1))
             \<and> exit_status (main env) = 1)
          \<and> (set dev_ids \<inter> index_keys idx = {} \<longrightarrow>
             snd (main env) = snd (for_each after (check_file env idx))
             \<and> (\<exists>rest. fst (main env) =
                  Starting # out_changed @ out_index
                    @ CheckingFiles (map (\<lambda>(status, f). path_name f)
                        (before @ (''A'', path) # after))
                    # fst (for_each before (check_file env idx))
                    @ (CheckingFile (path_name path) # out
                         @ fst (validate_rule_id_range dev_ids)
                         @ [NoConflictsInNewFile (path_name path)])
                    @ rest))
          \<and> (after = [] \<longrightarrow>
               (exit_status (main env) = 1 \<longleftrightarrow> set dev_ids \<inter> index_keys idx \<noteq> {})
             \<and> (exit_status (main env) = 0 \<longleftrightarrow> set dev_ids \<inter> index_keys idx = {}))))
       \<and> (snd (check_file env idx (''A'', path)) = Inl (SystemExit 1)
            \<longleftrightarrow> set dev_ids \<inter> index_keys idx \<noteq> {})
       \<and> (ConflictsDetected \<in> set (fst (check_file env idx (''A'', path)))
            \<longleftrightarrow> set dev_ids \<inter> index_keys idx \<noteq> {})
       \<and> (set dev_ids \<inter> index_keys idx \<noteq> {} \<longrightarrow>
            check_file env idx (''A'', path) =
              (CheckingFile (path_name path) # out @ fst (validate_rule_id_range dev_ids)
                 @ ConflictsDetected
                 # concat (map (\<lambda>rule_id. RuleIdFoundIn rule_id
                                  # map FoundInFile (sort (index_get idx rule_id)))
                     (sorted_list_of_set (set dev_ids \<inter> index_keys idx))),
               Inl (SystemExit 1)))
       \<and> (\<forall>rule_id \<in> set dev_ids \<inter> index_keys idx.
            RuleIdFoundIn rule_id \<in> set (fst (check_file env idx (''A'', path)))
            \<and> (\<forall>f \<in> set (index_get idx rule_id).
                 FoundInFile f \<in> set (fst (check_file env idx (''A'', path)))))
       \<and> (set dev_ids \<inter> index_keys idx = {} \<longrightarrow>
            check_file env idx (''A'', path) =
              (CheckingFile (path_name path) # out @ fst (validate_rule_id_range dev_ids)
                 @ [NoConflictsInNewFile (path_name path)],
               Inr ()))
       \<and> (set dev_ids \<inter> index_keys idx \<noteq> {}
            \<and> snd (for_each before (check_file env idx)) = Inr () \<longrightarrow>
            snd (for_each (before @ (''A'', path) # after) (check_file env idx))
              = Inl (SystemExit 1))"
proof -
  let ?C = "set dev_ids \<inter> index_keys idx"
  let ?changed = "(''A'', path)"
  note checked = added_file_checked [OF assms, of idx before after]
  have run: "(get_changed_rule_files env = (out_changed, Inr (before @ (''A'', path) # after))
          \<and> get_rule_ids_per_file_in_main env = (out_index, Inr idx)
          \<and> snd (for_each before (check_file env idx)) = Inr () \<longrightarrow>
          (set dev_ids \<inter> index_keys idx \<noteq> {} \<longrightarrow>
             main env =
               (Starting # out_changed @ out_index
                  @ CheckingFiles (map (\<lambda>(status, f). path_name f)
                      (before @ (''A'', path) # after))
                  # fst (for_each before (check_file env idx))
                  @ CheckingFile (path_name path) # out @ fst (validate_rule_id_range dev_ids)
                  @ ConflictsDetected
                  # concat (map (\<lambda>rule_id. RuleIdFoundIn rule_id
                                   # map FoundInFile (sort (index_get idx rule_id)))
                      (sorted_list_of_set (set dev_ids \<inter> index_keys idx))),
                Inl (SystemExit 1))
             \<and> exit_status (main env) = 1)
          \<and> (set dev_ids \<inter> index_keys idx = {} \<longrightarrow>
             snd (main env) = snd (for_each after (check_file env idx))
             \<and> (\<exists>rest. fst (main env) =
                  Starting # out_changed @ out_index
                    @ CheckingFiles (map (\<lambda>(status, f). path_name f)
                        (before @ (''A'', path) # after))
                    # fst (for_each before (check_file env idx))
                    @ (CheckingFile (path_name path) # out
                         @ fst (validate_rule_id_range dev_ids)
                         @ [NoConflictsInNewFile (path_name path)])
                    @ rest))
          \<and> (after = [] \<longrightarrow>
               (exit_status (main env) = 1 \<longleftrightarrow> set dev_ids \<inter> index_keys idx \<noteq> {})
             \<and> (exit_status (main env) = 0 \<longleftrightarrow> set dev_ids \<inter> index_keys idx = {})))"
  proof (intro impI)
    assume h: "get_changed_rule_files env = (out_changed, Inr (before @ ?changed # after))
          \<and> get_rule_ids_per_file_in_main env = (out_index, Inr idx)
          \<and> snd (for_each before (check_file env idx)) = Inr ()"
    then have h1: "get_changed_rule_files env = (out_changed, Inr (before @ ?changed # after))"
      and h2: "get_rule_ids_per_file_in_main env = (out_index, Inr idx)"
      and h3: "snd (for_each before (check_file env idx)) = Inr ()"
      by simp_all
    show "(?C \<noteq> {} \<longrightarrow>
             main env =
               (Starting # out_changed @ out_index
                  @ CheckingFiles (map (\<lambda>(status, f). path_name f) (before @ ?changed # after))
                  # fst (for_each before (check_file env idx))
                  @ CheckingFile (path_name path) # out @ fst (validate_rule_id_range dev_ids)
                  @ ConflictsDetected
                  # concat (map (\<lambda>rule_id. RuleIdFoundIn rule_id
                                   # map FoundInFile (sort (index_get idx rule_id)))
                      (sorted_list_of_set ?C)),
                Inl (SystemExit 1))
             \<and> exit_status (main env) = 1)
          \<and> (?C = {} \<longrightarrow>
             snd (main env) = snd (for_each after (check_file env idx))
             \<and> (\<exists>rest. fst (main env) =
                  Starting # out_changed @ out_index
                    @ CheckingFiles (map (\<lambda>(status, f). path_name f) (before @ ?changed # after))
                    # fst (for_each before (check_file env idx))
                    @ (CheckingFile (path_name path) # out
                         @ fst (validate_rule_id_range dev_ids)
                         @ [NoConflictsInNewFile (path_name path)])
                    @ rest))
          \<and> (after = [] \<longrightarrow>
               (exit_status (main env) = 1 \<longleftrightarrow> ?C \<noteq> {})
             \<and> (exit_status (main env) = 0 \<longleftrightarrow> ?C = {}))"
    proof (cases "?C = {}")
      case True
      with checked have eq: "check_file env idx ?changed =
          (CheckingFile (path_name path) # out @ fst (validate_rule_id_range dev_ids)
             @ [NoConflictsInNewFile (path_name path)], Inr ())"
        by blast
      note goes = main_goes_on [OF h1 h2 h3 eq]
      have "after = [] \<longrightarrow> exit_status (main env) = 0"
        using goes by (simp add: exit_status_def return_def)
      with True goes show ?thesis by (simp add: exit_status_def)
    next
      case False
      with checked have eq: "check_file env idx ?changed =
          (CheckingFile (path_name path) # out @ fst (validate_rule_id_range dev_ids)
             @ ConflictsDetected
             # concat (map (\<lambda>rule_id. RuleIdFoundIn rule_id
                              # map FoundInFile (sort (index_get idx rule_id)))
                 (sorted_list_of_set ?C)),
           Inl (SystemExit 1))"
        by blast
      note stop = main_stops_at [OF h1 h2 h3 eq]
      then have "exit_status (main env) = 1"
        by (simp add: exit_status_def)
      with False stop show ?thesis by (simp add: exit_status_def)
    qed
  qed
  from run checked show ?thesis
    by (rule conjI)
qed

theorem added_file_conflict_witness:
  "read_text example_env ''rules/b.xml'' = Inr xml_b
   \<and> extract_rule_ids_from_xml example_env xml_b = ([], Inr [100010, 100020])
   \<and> [100010, 100020 :: int] \<noteq> []
   \<and> distinct [100010, 100020 :: int]
   \<and> get_changed_rule_files example_env = ([], Inr ([] @ (''A'', ''rules/b.xml'') # []))
   \<and> get_rule_ids_per_file_in_main example_env
       = ([], Inr [(100010, [''rules/a.xml'']), (100050, [''rules/dup.xml''])])
   \<and> snd (for_each [] (check_file example_env
          [(100010, [''rules/a.xml'']), (100050, [''rules/dup.xml''])])) = Inr ()
   \<and> set [100010, 100020]
        \<inter> index_keys [(100010, [''rules/a.xml'']), (100050, [''rules/dup.xml''])] \<noteq> {}
   \<and> 100010 \<in> set [100010, 100020]
        \<inter> index_keys [(100010, [''rules/a.xml'']), (100050, [''rules/dup.xml''])]
   \<and> ''rules/a.xml''
        \<in> set (index_get [(100010, [''rules/a.xml'']), (100050, [''rules/dup.xml''])] 100010)
   \<and> check_file example_env [(100010, [''rules/a.xml'']), (100050, [''rules/dup.xml''])]
         (''A'', ''rules/b.xml'')
       = ([CheckingFile ''b.xml'', ConflictsDetected, RuleIdFoundIn 100010,
           FoundInFile ''rules/a.xml''],
          Inl (SystemExit 1))
   \<and> FoundInFile ''rules/a.xml''
        \<in> set (fst (check_file example_env
              [(100010, [''rules/a.xml'']), (100050, [''rules/dup.xml''])]
              (''A'', ''rules/b.xml'')))
   \<and> main example_env
       = ([Starting, CheckingFiles [''b.xml''], CheckingFile ''b.xml'', ConflictsDetected,
           RuleIdFoundIn 100010, FoundInFile ''rules/a.xml''],
          Inl (SystemExit 1))
   \<and> exit_status (main example_env) = 1
   \<and> read_text env_range ''rules/range.xml'' = Inr xml_range
   \<and> extract_rule_ids_from_xml env_range xml_range
       = ([], Inr [99999, 100000, 120000, 120001])
   \<and> get_changed_rule_files env_range = ([], Inr ([] @ (''A'', ''rules/range.xml'') # []))
   \<and> get_rule_ids_per_file_in_main env_range
       = ([], Inr [(100010, [''rules/a.xml'']), (100050, [''rules/dup.xml''])])
   \<and> set [99999, 100000, 120000, 120001]
        \<inter> index_keys [(100010, [''rules/a.xml'']), (100050, [''rules/dup.xml''])] = {}
   \<and> exit_status (main env_range) = 0"
proof -
  let ?idx = "[(100010, [''rules/a.xml'']), (100050, [''rules/dup.xml''])]"
  have h1: "read_text example_env ''rules/b.xml'' = Inr xml_b" by code_simp
  have h2: "extract_rule_ids_from_xml example_env xml_b = ([], Inr [100010, 100020])"
    by code_simp
  have h3: "[100010, 100020 :: int] \<noteq> []" by simp
  have h4: "distinct [100010, 100020 :: int]" by simp
  have r1: "get_changed_rule_files example_env = ([], Inr ([] @ (''A'', ''rules/b.xml'') # []))"
    by code_simp
  have r2: "get_rule_ids_per_file_in_main example_env = ([], Inr ?idx)"
    by code_simp
  have c: "set [100010, 100020] \<inter> index_keys ?idx = {100010}"
    by (auto simp: index_keys_def)
  then have h5: "set [100010, 100020] \<inter> index_keys ?idx \<noteq> {}" by simp
  from c have h6: "100010 \<in> set [100010, 100020] \<inter> index_keys ?idx" by simp
  have h7: "''rules/a.xml'' \<in> set (index_get ?idx 100010)" by (simp add: index_get_def)
  have h8: "snd (for_each [] (check_file example_env ?idx)) = Inr ()"
    by (simp add: return_def)
  have e: "fst (for_each [] (check_file example_env ?idx)) = []"
    by (simp add: return_def)
  have v: "fst (validate_rule_id_range [100010, 100020]) = []"
    by (simp add: validate_rule_id_range_eq)
  have n: "path_name ''rules/b.xml'' = ''b.xml''" by code_simp
  have g: "concat (map (\<lambda>rule_id. RuleIdFoundIn rule_id
                          # map FoundInFile (sort (index_get ?idx rule_id)))
             (sorted_list_of_set (set [100010, 100020] \<inter> index_keys ?idx)))
      = [RuleIdFoundIn 100010, FoundInFile ''rules/a.xml'']"
    by code_simp
  have names: "map (\<lambda>(status, f). path_name f) ([] @ (''A'', ''rules/b.xml'') # [])
      = [''b.xml'']"
    by (simp add: n)
  note inst = added_file_conflict [OF h1 h2 h3 h4, where idx = ?idx and before = "[]"
      and after = "[]" and out_changed = "[]" and out_index = "[]"]
  from inst h5 have "check_file example_env ?idx (''A'', ''rules/b.xml'') =
      (CheckingFile (path_name ''rules/b.xml'') # []
         @ fst (validate_rule_id_range [100010, 100020])
         @ ConflictsDetected
         # concat (map (\<lambda>rule_id. RuleIdFoundIn rule_id
                          # map FoundInFile (sort (index_get ?idx rule_id)))
             (sorted_list_of_set (set [100010, 100020] \<inter> index_keys ?idx))),
       Inl (SystemExit 1))"
    by blast
  then have one: "check_file example_env ?idx (''A'', ''rules/b.xml'')
       = ([CheckingFile ''b.xml'', ConflictsDetected, RuleIdFoundIn 100010,
           FoundInFile ''rules/a.xml''],
          Inl (SystemExit 1))"
    unfolding g v n by simp
  from inst h6 h7 have found: "FoundInFile ''rules/a.xml''
        \<in> set (fst (check_file example_env ?idx (''A'', ''rules/b.xml'')))"
    by blast
  from inst r1 r2 h8 h5 have "main example_env =
      (Starting # [] @ []
         @ CheckingFiles (map (\<lambda>(status, f). path_name f) ([] @ (''A'', ''rules/b.xml'') # []))
         # fst (for_each [] (check_file example_env ?idx))
         @ CheckingFile (path_name ''rules/b.xml'') # []
         @ fst (validate_rule_id_range [100010, 100020])
         @ ConflictsDetected
         # concat (map (\<lambda>rule_id. RuleIdFoundIn rule_id
                          # map FoundInFile (sort (index_get ?idx rule_id)))
             (sorted_list_of_set (set [100010, 100020] \<inter> index_keys ?idx))),
       Inl (SystemExit 1))"
    by blast
  then have run1: "main example_env
       = ([Starting, CheckingFiles [''b.xml''], CheckingFile ''b.xml'', ConflictsDetected,
           RuleIdFoundIn 100010, FoundInFile ''rules/a.xml''],
          Inl (SystemExit 1))"
    unfolding g v n e names by simp
  from inst r1 r2 h8 h5 have run2: "exit_status (main example_env) = 1"
    by blast
  have k1: "read_text env_range ''rules/range.xml'' = Inr xml_range" by code_simp
  have k2: "extract_rule_ids_from_xml env_range xml_range
       = ([], Inr [99999, 100000, 120000, 120001])"
    by code_simp
  have k3: "[99999, 100000, 120000, 120001 :: int] \<noteq> []" by simp
  have k4: "distinct [99999, 100000, 120000, 120001 :: int]" by simp
  have s1: "get_changed_rule_files env_range
      = ([], Inr ([] @ (''A'', ''rules/range.xml'') # []))"
    by code_simp
  have s2: "get_rule_ids_per_file_in_main env_range = ([], Inr ?idx)"
    by code_simp
  have s3: "snd (for_each [] (check_file env_range ?idx)) = Inr ()"
    by (simp add: return_def)
  have k5: "set [99999, 100000, 120000, 120001] \<inter> index_keys ?idx = {}"
    by (simp add: index_keys_def)
  note inst2 = added_file_conflict [OF k1 k2 k3 k4, where idx = ?idx and before = "[]"
      and after = "[]" and out_changed = "[]" and out_index = "[]"]
  from inst2 s1 s2 s3 k5 have run3: "exit_status (main env_range) = 0"
    by blast
  from h1 h2 h3 h4 r1 r2 h8 h5 h6 h7 one found run1 run2 k1 k2 s1 s2 k5 run3 show ?thesis
    by (intro conjI)
qed

subsection \<open>The range advisory\<close>

lemma reconcile_other_status:
  "distinct dev_ids \<Longrightarrow> status \<noteq> ''A'' \<Longrightarrow> status \<noteq> ''M'' \<Longrightarrow>
   snd (reconcile env idx status path dev_ids) = Inr ()"
  by (simp add: reconcile_def validate_rule_id_range_eq detect_duplicates_Nil_iff comp_simps)

text \<open>
  How the loop body ends for a file that was read and has identifiers: only repeated
  identifiers, a conflict with the index, or an exception while fetching the version of
  \<^verbatim>\<open>origin/main\<close> make it raise.
\<close>

lemma check_file_outcome:
  assumes "read_text env path = Inr content"
    and "extract_rule_ids_from_xml env content = (out, Inr dev_ids)"
    and "dev_ids \<noteq> []"
  shows "snd (check_file env idx (status, path)) =
     (if \<not> distinct dev_ids then Inl (SystemExit 1)
      else if status = ''A''
      then (if set dev_ids \<inter> index_keys idx \<noteq> {} then Inl (SystemExit 1) else Inr ())
      else if status = ''M''
      then (case snd (get_rule_ids_from_main_version env path) of
              Inl e \<Rightarrow> Inl e
            | Inr main_ids \<Rightarrow>
                if (set dev_ids - set main_ids) \<inter> index_keys idx \<noteq> {}
                then Inl (SystemExit 1) else Inr ())
      else Inr ())"
proof -
  have body: "\<And>st. snd (check_file env idx (st, path))
      = snd (reconcile env idx st path dev_ids)"
    using assms(3) by (simp add: check_file_read [OF assms(1,2)])
  show ?thesis
  proof (cases "distinct dev_ids")
    case False
    then show ?thesis by (simp add: body reconcile_duplicates)
  next
    case True
    show ?thesis
    proof (cases "status = ''A''")
      case added: True
      with True show ?thesis by (simp add: body reconcile_added)
    next
      case not_added: False
      show ?thesis
      proof (cases "status = ''M''")
        case modified: True
        obtain out_main r where
          fetched: "get_rule_ids_from_main_version env path = (out_main, r)"
          by (cases "get_rule_ids_from_main_version env path")
        show ?thesis
        proof (cases r)
          case (Inl e)
          with True modified fetched show ?thesis
            by (simp add: body reconcile_modified_raises)
        next
          case (Inr main_ids)
          with True modified fetched show ?thesis
            by (auto simp: body reconcile_modified)
        qed
      next
        case False
        with True not_added show ?thesis
          by (simp add: body reconcile_other_status)
      qed
    qed
  qed
qed

text \<open>
  Claim C8. \<^verbatim>\<open>validate_rule_id_range\<close> prints one warning listing, in increasing
  order, the identifiers below 100000 or above 120000, and prints nothing when there is
  none; it always returns. For a changed file with identifiers, of any status, the
  warning comes right after the extraction, and the body ends as the other checks
  decide: it raises only for repeated identifiers, for a conflict with the index, or
  when fetching the version of \<^verbatim>\<open>origin/main\<close> raises; so a new file without
  conflict and a file of any status other than \<^verbatim>\<open>A\<close> and \<^verbatim>\<open>M\<close> pass whatever
  the range of their distinct identifiers. In the run, a file that passes those checks
  lets \<^verbatim>\<open>main\<close> go on to the files after it, with the warning among the lines
  printed; when it is the last file, \<^verbatim>\<open>main\<close> announces success and the exit
  status is 0. 100000 and 120000 give no warning; 99999 and 120001 do.
\<close>

theorem range_warning_is_advisory:
  "validate_rule_id_range rule_ids =
     (if \<exists>rule_id \<in> set rule_ids. rule_id < 100000 \<or> 120000 < rule_id
      then [RangeWarning (sort (filter (\<lambda>rule_id. rule_id < 100000 \<or> 120000 < rule_id) rule_ids)),
            RangeAdvice]
      else [],
      Inr ())
   \<and> (read_text env path = Inr content
        \<and> extract_rule_ids_from_xml env content = (out, Inr dev_ids) \<and> dev_ids \<noteq> []
      \<longrightarrow> (\<exists>rest. fst (check_file env idx (status, path))
             = CheckingFile (path_name path) # out @ fst (validate_rule_id_range dev_ids) @ rest)
          \<and> snd (check_file env idx (status, path)) =
             (if \<not> distinct dev_ids then Inl (SystemExit 1)
              else if status = ''A''
              then (if set dev_ids \<inter> index_keys idx \<noteq> {} then Inl (SystemExit 1) else Inr ())
              else if status = ''M''
              then (case snd (get_rule_ids_from_main_version env path) of
                      Inl e \<Rightarrow> Inl e
                    | Inr main_ids \<Rightarrow>
                        if (set dev_ids - set main_ids) \<inter> index_keys idx \<noteq> {}
                        then Inl (SystemExit 1) else Inr ())
              else Inr ()))
   \<and> (read_text env path = Inr content
        \<and> extract_rule_ids_from_xml env content = (out, Inr dev_ids) \<and> dev_ids \<noteq> []
        \<and> distinct dev_ids \<and> set dev_ids \<inter> index_keys idx = {}
      \<longrightarrow> snd (check_file env idx (''A'', path)) = Inr ())
   \<and> (read_text env path = Inr content
        \<and> extract_rule_ids_from_xml env content = (out, Inr dev_ids) \<and> dev_ids \<noteq> []
        \<and> distinct dev_ids \<and> status \<noteq> ''A'' \<and> status \<noteq> ''M''
      \<longrightarrow> snd (check_file env idx (status, path)) = Inr ())
   \<and> (get_changed_rule_files env = (out_changed, Inr (before @ (status, path) # after))
        \<and> get_rule_ids_per_file_in_main env = (out_index, Inr idx)
        \<and> snd (for_each before (check_file env idx)) = Inr ()
        \<and> read_text env path = Inr content
        \<and> extract_rule_ids_from_xml env content = (out, Inr dev_ids) \<and> dev_ids \<noteq> []
        \<and> snd (check_file env idx (status, path)) = Inr ()
      \<longrightarrow> snd (main env) = snd (for_each after (check_file env idx))
          \<and> (after = [] \<longrightarrow> exit_status (main env) = 0 \<and> AllPassed \<in> set (fst (main env)))
          \<and> ((\<exists>rule_id \<in> set dev_ids. rule_id < 100000 \<or> 120000 < rule_id) \<longrightarrow>
               RangeWarning (sort (filter (\<lambda>rule_id. rule_id < 100000 \<or> 120000 < rule_id) dev_ids))
                 \<in> set (fst (main env))))
   \<and> validate_rule_id_range [100000, 120000] = ([], Inr ())
   \<and> validate_rule_id_range [99999, 120001] = ([RangeWarning [99999, 120001], RangeAdvice], Inr ())"
proof -
  have prints: "validate_rule_id_range rule_ids =
     (if \<exists>rule_id \<in> set rule_ids. rule_id < 100000 \<or> 120000 < rule_id
      then [RangeWarning (sort (filter (\<lambda>rule_id. rule_id < 100000 \<or> 120000 < rule_id) rule_ids)),
            RangeAdvice]
      else [],
      Inr ())"
    by (rule validate_rule_id_range_eq)
  have body: "(read_text env path = Inr content
        \<and> extract_rule_ids_from_xml env content = (out, Inr dev_ids) \<and> dev_ids \<noteq> []
      \<longrightarrow> (\<exists>rest. fst (check_file env idx (status, path))
             = CheckingFile (path_name path) # out @ fst (validate_rule_id_range dev_ids) @ rest)
          \<and> snd (check_file env idx (status, path)) =
             (if \<not> distinct dev_ids then Inl (SystemExit 1)
              else if status = ''A''
              then (if set dev_ids \<inter> index_keys idx \<noteq> {} then Inl (SystemExit 1) else Inr ())
              else if status = ''M''
              then (case snd (get_rule_ids_from_main_version env path) of
                      Inl e \<Rightarrow> Inl e
                    | Inr main_ids \<Rightarrow>
                        if (set dev_ids - set main_ids) \<inter> index_keys idx \<noteq> {}
                        then Inl (SystemExit 1) else Inr ())
              else Inr ()))"
  proof (intro impI conjI)
    assume h: "read_text env path = Inr content
        \<and> extract_rule_ids_from_xml env content = (out, Inr dev_ids) \<and> dev_ids \<noteq> []"
    obtain rest where "fst (reconcile env idx status path dev_ids)
        = fst (validate_rule_id_range dev_ids) @ rest"
      using reconcile_starts by blast
    with h show "\<exists>rest. fst (check_file env idx (status, path))
             = CheckingFile (path_name path) # out @ fst (validate_rule_id_range dev_ids) @ rest"
      by (simp add: check_file_read)
    from h show "snd (check_file env idx (status, path)) =
             (if \<not> distinct dev_ids then Inl (SystemExit 1)
              else if status = ''A''
              then (if set dev_ids \<inter> index_keys idx \<noteq> {} then Inl (SystemExit 1) else Inr ())
              else if status = ''M''
              then (case snd (get_rule_ids_from_main_version env path) of
                      Inl e \<Rightarrow> Inl e
                    | Inr main_ids \<Rightarrow>
                        if (set dev_ids - set main_ids) \<inter> index_keys idx \<noteq> {}
                        then Inl (SystemExit 1) else Inr ())
              else Inr ())"
      using check_file_outcome [of env path content out dev_ids idx status] by blast
  qed
  have added: "(read_text env path = Inr content
        \<and> extract_rule_ids_from_xml env content = (out, Inr dev_ids) \<and> dev_ids \<noteq> []
        \<and> distinct dev_ids \<and> set dev_ids \<inter> index_keys idx = {}
      \<longrightarrow> snd (check_file env idx (''A'', path)) = Inr ())"
    by (simp add: check_file_read reconcile_added)
  have other: "(read_text env path = Inr content
        \<and> extract_rule_ids_from_xml env content = (out, Inr dev_ids) \<and> dev_ids \<noteq> []
        \<and> distinct dev_ids \<and> status \<noteq> ''A'' \<and> status \<noteq> ''M''
      \<longrightarrow> snd (check_file env idx (status, path)) = Inr ())"
    by (simp add: check_file_read reconcile_other_status)
  have run: "(get_changed_rule_files env = (out_changed, Inr (before @ (status, path) # after))
        \<and> get_rule_ids_per_file_in_main env = (out_index, Inr idx)
        \<and> snd (for_each before (check_file env idx)) = Inr ()
        \<and> read_text env path = Inr content
        \<and> extract_rule_ids_from_xml env content = (out, Inr dev_ids) \<and> dev_ids \<noteq> []
        \<and> snd (check_file env idx (status, path)) = Inr ()
      \<longrightarrow> snd (main env) = snd (for_each after (check_file env idx))
          \<and> (after = [] \<longrightarrow> exit_status (main env) = 0 \<and> AllPassed \<in> set (fst (main env)))
          \<and> ((\<exists>rule_id \<in> set dev_ids. rule_id < 100000 \<or> 120000 < rule_id) \<longrightarrow>
               RangeWarning (sort (filter (\<lambda>rule_id. rule_id < 100000 \<or> 120000 < rule_id) dev_ids))
                 \<in> set (fst (main env))))"
  proof (intro impI)
    assume h: "get_changed_rule_files env = (out_changed, Inr (before @ (status, path) # after))
        \<and> get_rule_ids_per_file_in_main env = (out_index, Inr idx)
        \<and> snd (for_each before (check_file env idx)) = Inr ()
        \<and> read_text env path = Inr content
        \<and> extract_rule_ids_from_xml env content = (out, Inr dev_ids) \<and> dev_ids \<noteq> []
        \<and> snd (check_file env idx (status, path)) = Inr ()"
    then have h1: "get_changed_rule_files env
          = (out_changed, Inr (before @ (status, path) # after))"
      and h2: "get_rule_ids_per_file_in_main env = (out_index, Inr idx)"
      and h3: "snd (for_each before (check_file env idx)) = Inr ()"
      and h4: "read_text env path = Inr content
        \<and> extract_rule_ids_from_xml env content = (out, Inr dev_ids) \<and> dev_ids \<noteq> []"
      and h5: "snd (check_file env idx (status, path)) = Inr ()"
      by simp_all
    from h5 have passed: "check_file env idx (status, path)
        = (fst (check_file env idx (status, path)), Inr ())"
      by (metis prod.collapse)
    note goes = main_goes_on [OF h1 h2 h3 passed]
    from goes have ends: "snd (main env) = snd (for_each after (check_file env idx))"
      by (rule conjunct1)
    have nonempty: "before @ (status, path) # after \<noteq> []" by simp
    note whole = main_run [OF h1 nonempty h2]
    have last: "after = [] \<longrightarrow> exit_status (main env) = 0 \<and> AllPassed \<in> set (fst (main env))"
    proof
      assume "after = []"
      with ends have returned: "snd (main env) = Inr ()"
        by (simp add: return_def)
      then have "exit_status (main env) = 0"
        by (rule exit_status_returns)
      moreover from whole returned
      have "snd (for_each (before @ (status, path) # after) (check_file env idx)) = Inr ()"
        by simp
      with whole have "AllPassed \<in> set (fst (main env))"
        by simp
      ultimately show "exit_status (main env) = 0 \<and> AllPassed \<in> set (fst (main env))"
        by (rule conjI)
    qed
    have warned: "(\<exists>rule_id \<in> set dev_ids. rule_id < 100000 \<or> 120000 < rule_id) \<longrightarrow>
        RangeWarning (sort (filter (\<lambda>rule_id. rule_id < 100000 \<or> 120000 < rule_id) dev_ids))
          \<in> set (fst (main env))"
    proof
      assume outside: "\<exists>rule_id \<in> set dev_ids. rule_id < 100000 \<or> 120000 < rule_id"
      from body h4 obtain rest where "fst (check_file env idx (status, path))
          = CheckingFile (path_name path) # out @ fst (validate_rule_id_range dev_ids) @ rest"
        by blast
      with outside have "RangeWarning (sort (filter (\<lambda>rule_id. rule_id < 100000 \<or> 120000 < rule_id) dev_ids))
          \<in> set (fst (check_file env idx (status, path)))"
        by (simp add: validate_rule_id_range_eq)
      moreover from goes obtain rest' where "fst (main env) =
          Starting # out_changed @ out_index
            @ CheckingFiles (map (\<lambda>(status, f). path_name f) (before @ (status, path) # after))
            # fst (for_each before (check_file env idx))
            @ fst (check_file env idx (status, path)) @ rest'"
        by blast
      ultimately show "RangeWarning (sort (filter (\<lambda>rule_id. rule_id < 100000 \<or> 120000 < rule_id) dev_ids))
          \<in> set (fst (main env))"
        by simp
    qed
    from ends last warned
    show "snd (main env) = snd (for_each after (check_file env idx))
          \<and> (after = [] \<longrightarrow> exit_status (main env) = 0 \<and> AllPassed \<in> set (fst (main env)))
          \<and> ((\<exists>rule_id \<in> set dev_ids. rule_id < 100000 \<or> 120000 < rule_id) \<longrightarrow>
               RangeWarning (sort (filter (\<lambda>rule_id. rule_id < 100000 \<or> 120000 < rule_id) dev_ids))
                 \<in> set (fst (main env)))"
      by (intro conjI)
  qed
  have edge: "validate_rule_id_range [100000, 120000] = ([], Inr ())"
    by (simp add: validate_rule_id_range_eq)
  have outside: "validate_rule_id_range [99999, 120001] = ([RangeWarning [99999, 120001], RangeAdvice], Inr ())"
    by (simp add: validate_rule_id_range_eq)
  from prints body added other run edge outside show ?thesis
    by (intro conjI)
qed

theorem range_warning_is_advisory_witness:
  "read_text env_range ''rules/range.xml'' = Inr xml_range
   \<and> extract_rule_ids_from_xml env_range xml_range
       = ([], Inr [99999, 100000, 120000, 120001])
   \<and> [99999, 100000, 120000, 120001 :: int] \<noteq> []
   \<and> distinct [99999, 100000, 120000, 120001 :: int]
   \<and> get_changed_rule_files env_range = ([], Inr ([] @ (''A'', ''rules/range.xml'') # []))
   \<and> get_rule_ids_per_file_in_main env_range
       = ([], Inr [(100010, [''rules/a.xml'']), (100050, [''rules/dup.xml''])])
   \<and> snd (for_each [] (check_file env_range
          [(100010, [''rules/a.xml'']), (100050, [''rules/dup.xml''])])) = Inr ()
   \<and> set [99999, 100000, 120000, 120001]
        \<inter> index_keys [(100010, [''rules/a.xml'']), (100050, [''rules/dup.xml''])] = {}
   \<and> (\<exists>rule_id \<in> set [99999, 100000, 120000, 120001 :: int].
         rule_id < 100000 \<or> 120000 < rule_id)
   \<and> validate_rule_id_range [99999, 100000, 120000, 120001]
       = ([RangeWarning [99999, 120001], RangeAdvice], Inr ())
   \<and> snd (check_file env_range [(100010, [''rules/a.xml'']), (100050, [''rules/dup.xml''])]
         (''A'', ''rules/range.xml'')) = Inr ()
   \<and> exit_status (main env_range) = 0
   \<and> AllPassed \<in> set (fst (main env_range))
   \<and> RangeWarning [99999, 120001] \<in> set (fst (main env_range))
   \<and> ''D'' \<noteq> ''A'' \<and> ''D'' \<noteq> ''M''
   \<and> snd (check_file env_range [(100010, [''rules/a.xml'']), (100050, [''rules/dup.xml''])]
         (''D'', ''rules/range.xml'')) = Inr ()
   \<and> get_rule_ids_from_main_version (env_range\<lparr>git := (\<lambda>args. Completed xml_range)\<rparr>)
         ''rules/range.xml''
       = ([], Inr [99999, 100000, 120000, 120001])
   \<and> snd (check_file (env_range\<lparr>git := (\<lambda>args. Completed xml_range)\<rparr>)
         [(100010, [''rules/a.xml'']), (100050, [''rules/dup.xml''])]
         (''M'', ''rules/range.xml'')) = Inr ()"
proof -
  let ?idx = "[(100010, [''rules/a.xml'']), (100050, [''rules/dup.xml''])]"
  let ?ids = "[99999, 100000, 120000, 120001] :: int list"
  let ?env = "env_range\<lparr>git := (\<lambda>args. Completed xml_range)\<rparr>"
  have k1: "read_text env_range ''rules/range.xml'' = Inr xml_range" by code_simp
  have k2: "extract_rule_ids_from_xml env_range xml_range = ([], Inr ?ids)"
    by code_simp
  have k3: "?ids \<noteq> []" by simp
  have k4: "distinct ?ids" by simp
  have s1: "get_changed_rule_files env_range
      = ([], Inr ([] @ (''A'', ''rules/range.xml'') # []))"
    by code_simp
  have s2: "get_rule_ids_per_file_in_main env_range = ([], Inr ?idx)"
    by code_simp
  have s3: "snd (for_each [] (check_file env_range ?idx)) = Inr ()"
    by (simp add: return_def)
  have k5: "set ?ids \<inter> index_keys ?idx = {}"
    by (simp add: index_keys_def)
  have k6: "\<exists>rule_id \<in> set ?ids. rule_id < 100000 \<or> 120000 < rule_id" by simp
  have f: "sort (filter (\<lambda>rule_id. rule_id < 100000 \<or> 120000 < rule_id) ?ids)
      = [99999, 120001]"
    by simp
  note inst = range_warning_is_advisory [where rule_ids = ?ids and env = env_range
      and path = "''rules/range.xml''" and content = xml_range and out = "[]"
      and dev_ids = ?ids and idx = ?idx and status = "''A''" and before = "[]"
      and after = "[]" and out_changed = "[]" and out_index = "[]"]
  from inst k6 have "validate_rule_id_range ?ids
      = ([RangeWarning (sort (filter (\<lambda>rule_id. rule_id < 100000 \<or> 120000 < rule_id) ?ids)),
          RangeAdvice], Inr ())"
    by simp
  then have v: "validate_rule_id_range ?ids
      = ([RangeWarning [99999, 120001], RangeAdvice], Inr ())"
    by (simp only: f)
  from inst k1 k2 k3 k4 k5
  have passes: "snd (check_file env_range ?idx (''A'', ''rules/range.xml'')) = Inr ()"
    by blast
  from inst s1 s2 s3 k1 k2 k3 passes
  have run: "snd (main env_range) = snd (for_each [] (check_file env_range ?idx))
      \<and> ([] = ([] :: (string \<times> string) list) \<longrightarrow>
            exit_status (main env_range) = 0 \<and> AllPassed \<in> set (fst (main env_range)))
      \<and> ((\<exists>rule_id \<in> set ?ids. rule_id < 100000 \<or> 120000 < rule_id) \<longrightarrow>
            RangeWarning (sort (filter (\<lambda>rule_id. rule_id < 100000 \<or> 120000 < rule_id) ?ids))
              \<in> set (fst (main env_range)))"
    by blast
  from run have run1: "exit_status (main env_range) = 0" by blast
  from run have run2: "AllPassed \<in> set (fst (main env_range))" by blast
  from run k6 have "RangeWarning (sort (filter (\<lambda>rule_id. rule_id < 100000 \<or> 120000 < rule_id) ?ids))
      \<in> set (fst (main env_range))"
    by blast
  then have run3: "RangeWarning [99999, 120001] \<in> set (fst (main env_range))"
    by (simp only: f)
  have d1: "''D'' \<noteq> ''A''" by simp
  have d2: "''D'' \<noteq> ''M''" by simp
  note inst2 = range_warning_is_advisory [where env = env_range
      and path = "''rules/range.xml''" and content = xml_range and out = "[]"
      and dev_ids = ?ids and idx = ?idx and status = "''D''"]
  from inst2 k1 k2 k3 k4 d1 d2
  have deleted: "snd (check_file env_range ?idx (''D'', ''rules/range.xml'')) = Inr ()"
    by blast
  have m1: "read_text ?env ''rules/range.xml'' = Inr xml_range" by code_simp
  have m2: "extract_rule_ids_from_xml ?env xml_range = ([], Inr ?ids)" by code_simp
  have m3: "get_rule_ids_from_main_version ?env ''rules/range.xml'' = ([], Inr ?ids)"
    by code_simp
  note inst3 = range_warning_is_advisory [where env = ?env
      and path = "''rules/range.xml''" and content = xml_range and out = "[]"
      and dev_ids = ?ids and idx = ?idx and status = "''M''"]
  from inst3 m1 m2 k3 have "snd (check_file ?env ?idx (''M'', ''rules/range.xml'')) =
      (if \<not> distinct ?ids then Inl (SystemExit 1)
       else if ''M'' = ''A''
       then (if set ?ids \<inter> index_keys ?idx \<noteq> {} then Inl (SystemExit 1) else Inr ())
       else if ''M'' = ''M''
       then (case snd (get_rule_ids_from_main_version ?env ''rules/range.xml'') of
               Inl e \<Rightarrow> Inl e
             | Inr main_ids \<Rightarrow>
                 if (set ?ids - set main_ids) \<inter> index_keys ?idx \<noteq> {}
                 then Inl (SystemExit 1) else Inr ())
       else Inr ())"
    by blast
  then have modified: "snd (check_file ?env ?idx (''M'', ''rules/range.xml'')) = Inr ()"
    by (simp add: m3)
  from k1 k2 k3 k4 s1 s2 s3 k5 k6 v passes run1 run2 run3 d1 d2 deleted m3 modified
  show ?thesis
    by (intro conjI)
qed

subsection \<open>Modified files\<close>




subsection \<open>The index of \<^verbatim>\<open>origin/main\<close>\<close>

lemma map_of_add_to_entry:
  "map_of (map (\<lambda>(k, v). if k = rule_id then (k, List.insert file v) else (k, v)) d) k
     = map_option (\<lambda>v. if k = rule_id then List.insert file v else v) (map_of d k)"
  by (induction d) auto

lemma keys_add_to_entry:
  "map (fst \<circ> (\<lambda>(k, v). if k = rule_id then (k, List.insert file v) else (k, v))) d
     = map fst d"
  by (induction d) auto

lemma index_get_add:
  "index_get (index_add d rule_id file) k =
     (if k = rule_id then List.insert file (index_get d rule_id) else index_get d k)"
proof (cases "map_of d rule_id")
  case None
  then show ?thesis
    by (auto simp: index_get_def index_add_def map_add_def split: option.splits)
next
  case (Some files)
  then show ?thesis
    by (simp add: index_get_def index_add_def map_of_add_to_entry split: option.splits)
qed

lemma index_keys_add:
  "index_keys (index_add d rule_id file) = insert rule_id (index_keys d)"
proof (cases "map_of d rule_id")
  case None
  then show ?thesis
    by (simp add: index_keys_def index_add_def)
next
  case (Some files)
  then have "rule_id \<in> fst ` set d"
    by (metis map_of_eq_None_iff option.distinct(1))
  with Some show ?thesis
    by (auto simp: index_keys_def index_add_def keys_add_to_entry)
qed

lemma index_add_distinct_keys:
  "distinct (map fst d) \<Longrightarrow> distinct (map fst (index_add d rule_id file))"
proof (cases "map_of d rule_id")
  case None
  assume "distinct (map fst d)"
  moreover from None have "rule_id \<notin> fst ` set d"
    by (simp add: map_of_eq_None_iff)
  ultimately show ?thesis
    using None by (simp add: index_add_def)
next
  case (Some files)
  assume "distinct (map fst d)"
  with Some show ?thesis
    by (simp add: index_add_def keys_add_to_entry)
qed

lemma index_add_nonempty:
  "(\<forall>k \<in> index_keys d. index_get d k \<noteq> []) \<Longrightarrow>
   (\<forall>k \<in> index_keys (index_add d rule_id file). index_get (index_add d rule_id file) k \<noteq> [])"
  by (auto simp: index_keys_add index_get_add List.insert_def)

text \<open>The loop of lines 69 and 70: every identifier of the file gets the file, once.\<close>

lemma index_get_add_all:
  "index_get (fold (\<lambda>rule_id d. index_add d rule_id file) rule_ids d) k =
     (if k \<in> set rule_ids then List.insert file (index_get d k) else index_get d k)"
proof (induction rule_ids arbitrary: d)
  case Nil
  then show ?case by simp
next
  case (Cons x xs)
  have twice: "List.insert file (List.insert file (index_get d x)) = List.insert file (index_get d x)"
    by simp
  show ?case
    by (simp add: Cons.IH index_get_add twice)
qed

lemma index_keys_add_all:
  "index_keys (fold (\<lambda>rule_id d. index_add d rule_id file) rule_ids d)
     = index_keys d \<union> set rule_ids"
  by (induction rule_ids arbitrary: d) (auto simp: index_keys_add)

lemma add_all_distinct_keys:
  "distinct (map fst d) \<Longrightarrow>
   distinct (map fst (fold (\<lambda>rule_id d. index_add d rule_id file) rule_ids d))"
  by (induction rule_ids arbitrary: d) (simp_all add: index_add_distinct_keys)

text \<open>One round of the loop of lines 65 to 73, by what git answers for the file.\<close>

lemma index_files_Completed:
  assumes "git env [''git'', ''show'', ''origin/main:'' @ file] = Completed content"
    and "extract_rule_ids_from_xml env content = (out, Inr rule_ids)"
  shows "index_files env (file # files) d =
     (out @ fst (index_files env files
                   (fold (\<lambda>rule_id d. index_add d rule_id file) rule_ids d)),
      snd (index_files env files (fold (\<lambda>rule_id d. index_add d rule_id file) rule_ids d)))"
  using assms by (simp add: run_git_command_Completed comp_simps)

lemma index_files_NonZeroExit:
  assumes "git env [''git'', ''show'', ''origin/main:'' @ file] = NonZeroExit stderr"
  shows "index_files env (file # files) d =
     ([GitCommandFailed [''git'', ''show'', ''origin/main:'' @ file], GitErrorText stderr],
      Inl (SystemExit 1))"
  using assms by (simp add: run_git_command_NonZeroExit comp_simps)

lemma index_files_NotStarted:
  assumes "git env [''git'', ''show'', ''origin/main:'' @ file] = NotStarted msg"
  shows "index_files env (file # files) d = ([], Inl (OtherException msg))"
  using assms by (simp add: run_git_command_NotStarted comp_simps)

text \<open>
  What the loop has built when it returns: every file was fetched, a file is in the set
  of an identifier exactly when it was there before or its content in
  \<^verbatim>\<open>origin/main\<close> declares the identifier, and sets without repetition and keys
  without repetition stay so.
\<close>

lemma index_files_returns:
  "index_files env files d = (out, Inr idx) \<Longrightarrow>
     (\<forall>file \<in> set files. \<exists>content.
         git env [''git'', ''show'', ''origin/main:'' @ file] = Completed content)
   \<and> (\<forall>rule_id file. file \<in> set (index_get idx rule_id) \<longleftrightarrow>
         file \<in> set (index_get d rule_id)
         \<or> (file \<in> set files
            \<and> (\<exists>ids. snd (get_rule_ids_from_main_version env file) = Inr ids
                  \<and> rule_id \<in> set ids)))
   \<and> ((\<forall>rule_id. distinct (index_get d rule_id)) \<longrightarrow>
        (\<forall>rule_id. distinct (index_get idx rule_id)))
   \<and> (distinct (map fst d) \<longrightarrow> distinct (map fst idx))
   \<and> ((\<forall>k \<in> index_keys d. index_get d k \<noteq> []) \<longrightarrow>
        (\<forall>k \<in> index_keys idx. index_get idx k \<noteq> []))"
proof (induction files arbitrary: d out)
  case Nil
  then show ?case by (simp add: return_def)
next
  case (Cons f fs)
  show ?case
  proof (cases "git env [''git'', ''show'', ''origin/main:'' @ f]")
    case (NonZeroExit stderr)
    from Cons.prems show ?thesis
      unfolding index_files_NonZeroExit [OF NonZeroExit] by simp
  next
    case (NotStarted msg)
    from Cons.prems show ?thesis
      unfolding index_files_NotStarted [OF NotStarted] by simp
  next
    case (Completed content)
    obtain o1 ids where ex: "extract_rule_ids_from_xml env content = (o1, Inr ids)"
      using extract_returns by blast
    define d' where "d' = fold (\<lambda>rule_id d. index_add d rule_id f) ids d"
    have step: "index_files env (f # fs) d
        = (o1 @ fst (index_files env fs d'), snd (index_files env fs d'))"
      unfolding d'_def by (rule index_files_Completed [OF Completed ex])
    with Cons.prems have rest: "index_files env fs d' = (fst (index_files env fs d'), Inr idx)"
      by (metis prod.collapse snd_conv)
    note IH = Cons.IH [OF rest]
    have fetched: "snd (get_rule_ids_from_main_version env f) = Inr ids"
      using Completed ex by (simp add: main_version_Completed)
    have get: "\<And>k. index_get d' k
        = (if k \<in> set ids then List.insert f (index_get d k) else index_get d k)"
      unfolding d'_def by (rule index_get_add_all)
    have keys: "index_keys d' = index_keys d \<union> set ids"
      unfolding d'_def by (rule index_keys_add_all)
    have all_fetched: "\<forall>file \<in> set (f # fs). \<exists>content.
         git env [''git'', ''show'', ''origin/main:'' @ file] = Completed content"
      using IH Completed by auto
    have member: "\<forall>rule_id file. file \<in> set (index_get idx rule_id) \<longleftrightarrow>
         file \<in> set (index_get d rule_id)
         \<or> (file \<in> set (f # fs)
            \<and> (\<exists>ids. snd (get_rule_ids_from_main_version env file) = Inr ids
                  \<and> rule_id \<in> set ids))"
    proof (intro allI)
      fix rule_id g
      from IH have "g \<in> set (index_get idx rule_id) \<longleftrightarrow>
         g \<in> set (index_get d' rule_id)
         \<or> (g \<in> set fs
            \<and> (\<exists>ids. snd (get_rule_ids_from_main_version env g) = Inr ids
                  \<and> rule_id \<in> set ids))"
        by blast
      moreover have "g \<in> set (index_get d' rule_id) \<longleftrightarrow>
          g \<in> set (index_get d rule_id) \<or> (g = f \<and> rule_id \<in> set ids)"
        by (auto simp: get)
      ultimately show "g \<in> set (index_get idx rule_id) \<longleftrightarrow>
         g \<in> set (index_get d rule_id)
         \<or> (g \<in> set (f # fs)
            \<and> (\<exists>ids. snd (get_rule_ids_from_main_version env g) = Inr ids
                  \<and> rule_id \<in> set ids))"
        using fetched by auto
    qed
    have sets: "(\<forall>rule_id. distinct (index_get d rule_id)) \<longrightarrow>
        (\<forall>rule_id. distinct (index_get idx rule_id))"
    proof
      assume "\<forall>rule_id. distinct (index_get d rule_id)"
      then have "\<forall>rule_id. distinct (index_get d' rule_id)"
        by (simp add: get)
      with IH show "\<forall>rule_id. distinct (index_get idx rule_id)"
        by blast
    qed
    have uniq: "distinct (map fst d) \<longrightarrow> distinct (map fst idx)"
    proof
      assume "distinct (map fst d)"
      then have "distinct (map fst d')"
        unfolding d'_def by (rule add_all_distinct_keys)
      with IH show "distinct (map fst idx)"
        by blast
    qed
    have filled: "(\<forall>k \<in> index_keys d. index_get d k \<noteq> []) \<longrightarrow>
        (\<forall>k \<in> index_keys idx. index_get idx k \<noteq> [])"
    proof
      assume "\<forall>k \<in> index_keys d. index_get d k \<noteq> []"
      then have "\<forall>k \<in> index_keys d'. index_get d' k \<noteq> []"
        by (auto simp: get keys List.insert_def)
      with IH show "\<forall>k \<in> index_keys idx. index_get idx k \<noteq> []"
        by blast
    qed
    from all_fetched member sets uniq filled show ?thesis
      by (intro conjI)
  qed
qed

lemma index_builder_returns:
  assumes "get_rule_ids_per_file_in_main env = (out, Inr idx)"
  shows "\<exists>out_fetch files_output out_files.
     git env [''git'', ''fetch'', ''origin'', ''main''] = Completed out_fetch
   \<and> git env [''git'', ''ls-tree'', ''-r'', ''origin/main'', ''--name-only'']
       = Completed files_output
   \<and> index_files env (filter is_rule_file (splitlines files_output)) [] = (out_files, Inr idx)"
proof (cases "git env [''git'', ''fetch'', ''origin'', ''main'']")
  case (NonZeroExit stderr)
  with assms show ?thesis
    by (simp add: get_rule_ids_per_file_in_main_def run_git_command_NonZeroExit comp_simps)
next
  case (NotStarted msg)
  with assms show ?thesis
    by (simp add: get_rule_ids_per_file_in_main_def run_git_command_NotStarted comp_simps)
next
  case fetch: (Completed out_fetch)
  show ?thesis
  proof (cases "git env [''git'', ''ls-tree'', ''-r'', ''origin/main'', ''--name-only'']")
    case (NonZeroExit stderr)
    with assms fetch show ?thesis
      by (simp add: get_rule_ids_per_file_in_main_def run_git_command_NonZeroExit
          run_git_command_Completed comp_simps)
  next
    case (NotStarted msg)
    with assms fetch show ?thesis
      by (simp add: get_rule_ids_per_file_in_main_def run_git_command_NotStarted
          run_git_command_Completed comp_simps)
  next
    case (Completed files_output)
    obtain out_files r where
      loop: "index_files env (filter is_rule_file (splitlines files_output)) [] = (out_files, r)"
      by (cases "index_files env (filter is_rule_file (splitlines files_output)) []")
    show ?thesis
    proof (cases r)
      case (Inl e)
      with assms fetch Completed loop show ?thesis
        by (simp add: get_rule_ids_per_file_in_main_def run_git_command_Completed comp_simps
            split: if_splits)
    next
      case (Inr built)
      with assms fetch Completed loop have "built = idx"
        by (simp add: get_rule_ids_per_file_in_main_def run_git_command_Completed comp_simps)
      with fetch Completed loop Inr show ?thesis
        by simp
    qed
  qed
qed

text \<open>A loop that returns has returned after each of its files.\<close>

lemma index_files_prefix:
  "index_files env (xs @ ys) d = (out, Inr idx) \<Longrightarrow>
   \<exists>out1 d1 out2. index_files env xs d = (out1, Inr d1) \<and> index_files env ys d1 = (out2, Inr idx)"
proof (induction xs arbitrary: d out)
  case Nil
  then show ?case by (simp add: return_def)
next
  case (Cons f fs)
  show ?case
  proof (cases "git env [''git'', ''show'', ''origin/main:'' @ f]")
    case (NonZeroExit stderr)
    from Cons.prems show ?thesis
      unfolding append_Cons index_files_NonZeroExit [OF NonZeroExit] by simp
  next
    case (NotStarted msg)
    from Cons.prems show ?thesis
      unfolding append_Cons index_files_NotStarted [OF NotStarted] by simp
  next
    case (Completed content)
    obtain o1 ids where ex: "extract_rule_ids_from_xml env content = (o1, Inr ids)"
      using extract_returns by blast
    define d' where "d' = fold (\<lambda>rule_id d. index_add d rule_id f) ids d"
    have whole: "index_files env (f # (fs @ ys)) d
        = (o1 @ fst (index_files env (fs @ ys) d'), snd (index_files env (fs @ ys) d'))"
      unfolding d'_def by (rule index_files_Completed [OF Completed ex])
    with Cons.prems
    have rest: "index_files env (fs @ ys) d' = (fst (index_files env (fs @ ys) d'), Inr idx)"
      by (metis append_Cons prod.collapse snd_conv)
    from Cons.IH [OF rest] obtain out1 d1 out2 where
      first: "index_files env fs d' = (out1, Inr d1)"
      and second: "index_files env ys d1 = (out2, Inr idx)"
      by blast
    have "index_files env (f # fs) d
        = (o1 @ fst (index_files env fs d'), snd (index_files env fs d'))"
      unfolding d'_def by (rule index_files_Completed [OF Completed ex])
    with first have "index_files env (f # fs) d = (o1 @ out1, Inr d1)"
      by simp
    with second show ?thesis
      by blast
  qed
qed

lemma count_list_pos: "0 < count_list xs a \<longleftrightarrow> a \<in> set xs"
  by (induction xs) auto

lemma count_list_distinct:
  "distinct xs \<Longrightarrow> count_list xs a = 1 \<longleftrightarrow> a \<in> set xs"
  by (induction xs) auto

text \<open>
  Claim C9. In the index that \<^verbatim>\<open>get_rule_ids_per_file_in_main\<close> returns, a file of
  \<^verbatim>\<open>origin/main\<close> occurs at most once among the files of an identifier, and it occurs
  once exactly when it is one of the listed rule files and its content declares the
  identifier, however many times it declares it. Each identifier has one entry. The same
  holds of the index after each file of the loop: the loop has returned after the first
  \<open>n\<close> files, for every \<open>n\<close>, with an index whose sets hold a file at most once.
\<close>

theorem index_one_entry_per_file:
  assumes built: "get_rule_ids_per_file_in_main env = (out, Inr idx)"
    and listed: "git env [''git'', ''ls-tree'', ''-r'', ''origin/main'', ''--name-only'']
                   = Completed files_output"
  shows "(\<forall>rule_id file. count_list (index_get idx rule_id) file \<le> 1)
     \<and> (\<forall>rule_id file. count_list (index_get idx rule_id) file = 1 \<longleftrightarrow>
           file \<in> set (filter is_rule_file (splitlines files_output))
           \<and> (\<exists>ids. snd (get_rule_ids_from_main_version env file) = Inr ids
                 \<and> 0 < count_list ids rule_id))
     \<and> distinct (map fst idx)
     \<and> (\<forall>n. \<exists>out_n idx_n.
           index_files env (take n (filter is_rule_file (splitlines files_output))) []
             = (out_n, Inr idx_n)
           \<and> (\<forall>rule_id file. count_list (index_get idx_n rule_id) file \<le> 1))"
proof -
  define xml_files where "xml_files = filter is_rule_file (splitlines files_output)"
  from index_builder_returns [OF built] listed
  obtain out_files where loop: "index_files env xml_files [] = (out_files, Inr idx)"
    unfolding xml_files_def by auto
  have empty: "\<forall>rule_id. distinct (index_get [] rule_id)"
    by (simp add: index_get_def)
  note whole = index_files_returns [OF loop]
  from whole empty have sets: "\<forall>rule_id. distinct (index_get idx rule_id)"
    by blast
  then have once: "\<forall>rule_id file. count_list (index_get idx rule_id) file \<le> 1"
    by (simp add: distinct_count_list)
  have unindexed: "\<forall>rule_id file. file \<notin> set (index_get [] rule_id)"
    by (simp add: index_get_def)
  from whole have "\<forall>rule_id file. file \<in> set (index_get idx rule_id) \<longleftrightarrow>
       file \<in> set (index_get [] rule_id)
       \<or> (file \<in> set xml_files
          \<and> (\<exists>ids. snd (get_rule_ids_from_main_version env file) = Inr ids
                \<and> rule_id \<in> set ids))"
    by blast
  with unindexed have member: "\<forall>rule_id file. file \<in> set (index_get idx rule_id) \<longleftrightarrow>
       file \<in> set xml_files
       \<and> (\<exists>ids. snd (get_rule_ids_from_main_version env file) = Inr ids \<and> rule_id \<in> set ids)"
    by blast
  have exactly: "\<forall>rule_id file. count_list (index_get idx rule_id) file = 1 \<longleftrightarrow>
       file \<in> set xml_files
       \<and> (\<exists>ids. snd (get_rule_ids_from_main_version env file) = Inr ids
             \<and> 0 < count_list ids rule_id)"
  proof (intro allI)
    fix rule_id g
    from sets have "distinct (index_get idx rule_id)"
      by blast
    then have "count_list (index_get idx rule_id) g = 1 \<longleftrightarrow> g \<in> set (index_get idx rule_id)"
      by (rule count_list_distinct)
    also from member have "\<dots> \<longleftrightarrow> g \<in> set xml_files
       \<and> (\<exists>ids. snd (get_rule_ids_from_main_version env g) = Inr ids \<and> rule_id \<in> set ids)"
      by blast
    also have "\<dots> \<longleftrightarrow> g \<in> set xml_files
       \<and> (\<exists>ids. snd (get_rule_ids_from_main_version env g) = Inr ids
             \<and> 0 < count_list ids rule_id)"
      by (simp add: count_list_pos)
    finally show "count_list (index_get idx rule_id) g = 1 \<longleftrightarrow> g \<in> set xml_files
       \<and> (\<exists>ids. snd (get_rule_ids_from_main_version env g) = Inr ids
             \<and> 0 < count_list ids rule_id)" .
  qed
  from whole have keys: "distinct (map fst idx)"
    by (simp del: index_files.simps)
  have each: "\<forall>n. \<exists>out_n idx_n.
       index_files env (take n xml_files) [] = (out_n, Inr idx_n)
       \<and> (\<forall>rule_id file. count_list (index_get idx_n rule_id) file \<le> 1)"
  proof
    fix n
    from loop have "index_files env (take n xml_files @ drop n xml_files) [] = (out_files, Inr idx)"
      by simp
    from index_files_prefix [OF this] obtain out_n idx_n where
      part: "index_files env (take n xml_files) [] = (out_n, Inr idx_n)"
      by blast
    from index_files_returns [OF part] empty
    have "\<forall>rule_id. distinct (index_get idx_n rule_id)"
      by blast
    then have "\<forall>rule_id file. count_list (index_get idx_n rule_id) file \<le> 1"
      by (simp add: distinct_count_list)
    with part show "\<exists>out_n idx_n.
       index_files env (take n xml_files) [] = (out_n, Inr idx_n)
       \<and> (\<forall>rule_id file. count_list (index_get idx_n rule_id) file \<le> 1)"
      by blast
  qed
  from once exactly keys each show ?thesis
    unfolding xml_files_def by (intro conjI)
qed

theorem index_one_entry_per_file_witness:
  "get_rule_ids_per_file_in_main example_env
     = ([], Inr [(100010, [''rules/a.xml'']), (100050, [''rules/dup.xml''])])
   \<and> snd (get_rule_ids_from_main_version example_env ''rules/dup.xml'') = Inr [100050, 100050]
   \<and> count_list (index_get [(100010, [''rules/a.xml'']), (100050, [''rules/dup.xml''])] 100050)
        ''rules/dup.xml'' = 1
   \<and> (\<forall>rule_id file.
        count_list (index_get [(100010, [''rules/a.xml'']), (100050, [''rules/dup.xml''])] rule_id)
          file \<le> 1)
   \<and> (\<exists>out_n idx_n.
        index_files example_env
          (take 1 (filter is_rule_file (splitlines (''README.md'' @ [CHR 0x0A] @ ''rules/a.xml'' @ [CHR 0x0A] @ ''rules/dup.xml'' @ [CHR 0x0A])))) []
          = (out_n, Inr idx_n)
        \<and> (\<forall>rule_id file. count_list (index_get idx_n rule_id) file \<le> 1))"
proof -
  have built: "get_rule_ids_per_file_in_main example_env
     = ([], Inr [(100010, [''rules/a.xml'']), (100050, [''rules/dup.xml''])])"
    by code_simp
  have listed: "git example_env [''git'', ''ls-tree'', ''-r'', ''origin/main'', ''--name-only'']
      = Completed (''README.md'' @ [CHR 0x0A] @ ''rules/a.xml'' @ [CHR 0x0A] @ ''rules/dup.xml'' @ [CHR 0x0A])"
    by code_simp
  have declared: "snd (get_rule_ids_from_main_version example_env ''rules/dup.xml'')
      = Inr [100050, 100050]"
    by code_simp
  have names: "filter is_rule_file (splitlines (''README.md'' @ [CHR 0x0A] @ ''rules/a.xml'' @ [CHR 0x0A] @ ''rules/dup.xml'' @ [CHR 0x0A]))
      = [''rules/a.xml'', ''rules/dup.xml'']"
    by code_simp
  note inst = index_one_entry_per_file [OF built listed]
  from inst have once: "\<forall>rule_id file.
        count_list (index_get [(100010, [''rules/a.xml'']), (100050, [''rules/dup.xml''])] rule_id)
          file \<le> 1"
    by blast
  from inst have "count_list
        (index_get [(100010, [''rules/a.xml'']), (100050, [''rules/dup.xml''])] 100050)
        ''rules/dup.xml'' = 1 \<longleftrightarrow>
       ''rules/dup.xml'' \<in> set (filter is_rule_file (splitlines (''README.md'' @ [CHR 0x0A] @ ''rules/a.xml'' @ [CHR 0x0A] @ ''rules/dup.xml'' @ [CHR 0x0A])))
       \<and> (\<exists>ids. snd (get_rule_ids_from_main_version example_env ''rules/dup.xml'') = Inr ids
             \<and> 0 < count_list ids 100050)"
    by blast
  then have one: "count_list
        (index_get [(100010, [''rules/a.xml'']), (100050, [''rules/dup.xml''])] 100050)
        ''rules/dup.xml'' = 1"
    unfolding names declared by simp
  from inst have each: "\<exists>out_n idx_n.
        index_files example_env
          (take 1 (filter is_rule_file (splitlines (''README.md'' @ [CHR 0x0A] @ ''rules/a.xml'' @ [CHR 0x0A] @ ''rules/dup.xml'' @ [CHR 0x0A])))) []
          = (out_n, Inr idx_n)
        \<and> (\<forall>rule_id file. count_list (index_get idx_n rule_id) file \<le> 1)"
    by blast
  from built declared one once each show ?thesis
    by (intro conjI)
qed

subsection \<open>A failing \<^verbatim>\<open>git show\<close>\<close>

text \<open>
  Claim C4. For a modified file whose path \<^verbatim>\<open>origin/main\<close> does not have, the
  identifiers of the \<^verbatim>\<open>origin/main\<close> version are the empty list and the run goes on.
  The code does otherwise: in \<open>env_modified_absent\<close> the branch modifies
  \<^verbatim>\<open>rules/new.xml\<close>, \<^verbatim>\<open>git show origin/main:rules/new.xml\<close> exits with a non-zero
  status, and \<^verbatim>\<open>run_git_command\<close> (lines 12 to 15) answers that with
  \<^verbatim>\<open>sys.exit(1)\<close>, which the handler of line 84 does not catch:
  \<^verbatim>\<open>get_rule_ids_from_main_version\<close> returns no list, and the run ends there with exit
  status 1.
\<close>

theorem modified_file_absent_in_main_exits:
  "get_changed_rule_files env_modified_absent = ([], Inr [(''M'', ''rules/new.xml'')])
   \<and> git env_modified_absent [''git'', ''show'', ''origin/main:rules/new.xml'']
       = NonZeroExit ''fatal: path does not exist in origin/main''
   \<and> get_rule_ids_from_main_version env_modified_absent ''rules/new.xml''
       = ([GitCommandFailed [''git'', ''show'', ''origin/main:rules/new.xml''],
           GitErrorText ''fatal: path does not exist in origin/main''],
          Inl (SystemExit 1))
   \<and> main env_modified_absent
       = ([Starting, CheckingFiles [''new.xml''], CheckingFile ''new.xml'',
           GitCommandFailed [''git'', ''show'', ''origin/main:rules/new.xml''],
           GitErrorText ''fatal: path does not exist in origin/main''],
          Inl (SystemExit 1))
   \<and> exit_status (main env_modified_absent) = 1"
proof -
  have changed: "get_changed_rule_files env_modified_absent
      = ([], Inr [(''M'', ''rules/new.xml'')])"
    by code_simp
  have absent: "git env_modified_absent [''git'', ''show'', ''origin/main:rules/new.xml'']
      = NonZeroExit ''fatal: path does not exist in origin/main''"
    by code_simp
  have fetched: "get_rule_ids_from_main_version env_modified_absent ''rules/new.xml''
      = ([GitCommandFailed [''git'', ''show'', ''origin/main:rules/new.xml''],
          GitErrorText ''fatal: path does not exist in origin/main''],
         Inl (SystemExit 1))"
    by code_simp
  have run: "main env_modified_absent
      = ([Starting, CheckingFiles [''new.xml''], CheckingFile ''new.xml'',
          GitCommandFailed [''git'', ''show'', ''origin/main:rules/new.xml''],
          GitErrorText ''fatal: path does not exist in origin/main''],
         Inl (SystemExit 1))"
    by code_simp
  have status: "exit_status (main env_modified_absent) = 1"
    by code_simp
  from changed absent fetched run status show ?thesis
    by (intro conjI)
qed

text \<open>
  Claim C5. While the index is built, a rule file of \<^verbatim>\<open>origin/main\<close> whose content
  cannot be fetched is skipped with a warning and the loop goes on with the other files.
  The code does otherwise, for the reason of claim C4: in \<open>env_unfetchable\<close> the file
  \<^verbatim>\<open>rules/dup.xml\<close> is listed and \<^verbatim>\<open>git show origin/main:rules/dup.xml\<close> exits with
  a non-zero status; \<^verbatim>\<open>run_git_command\<close> answers with \<^verbatim>\<open>sys.exit(1)\<close>, which
  neither the handler of line 71 nor the handler of line 75 catches. No index is returned,
  the warning of line 72 is not printed, and the run ends before any changed file is
  looked at, with exit status 1.
\<close>

theorem unfetchable_file_aborts_the_index:
  "filter is_rule_file (splitlines
      (''README.md'' @ [CHR 0x0A] @ ''rules/a.xml'' @ [CHR 0x0A] @ ''rules/dup.xml'' @ [CHR 0x0A]))
     = [''rules/a.xml'', ''rules/dup.xml'']
   \<and> git env_unfetchable [''git'', ''ls-tree'', ''-r'', ''origin/main'', ''--name-only'']
       = Completed (''README.md'' @ [CHR 0x0A] @ ''rules/a.xml'' @ [CHR 0x0A]
                    @ ''rules/dup.xml'' @ [CHR 0x0A])
   \<and> git env_unfetchable [''git'', ''show'', ''origin/main:rules/dup.xml'']
       = NonZeroExit ''fatal: unable to read blob''
   \<and> get_rule_ids_per_file_in_main env_unfetchable
       = ([GitCommandFailed [''git'', ''show'', ''origin/main:rules/dup.xml''],
           GitErrorText ''fatal: unable to read blob''],
          Inl (SystemExit 1))
   \<and> main env_unfetchable
       = ([Starting,
           GitCommandFailed [''git'', ''show'', ''origin/main:rules/dup.xml''],
           GitErrorText ''fatal: unable to read blob''],
          Inl (SystemExit 1))
   \<and> exit_status (main env_unfetchable) = 1"
proof -
  have names: "filter is_rule_file (splitlines
      (''README.md'' @ [CHR 0x0A] @ ''rules/a.xml'' @ [CHR 0x0A] @ ''rules/dup.xml'' @ [CHR 0x0A]))
     = [''rules/a.xml'', ''rules/dup.xml'']"
    by code_simp
  have listed: "git env_unfetchable [''git'', ''ls-tree'', ''-r'', ''origin/main'', ''--name-only'']
      = Completed (''README.md'' @ [CHR 0x0A] @ ''rules/a.xml'' @ [CHR 0x0A]
                   @ ''rules/dup.xml'' @ [CHR 0x0A])"
    by code_simp
  have unread: "git env_unfetchable [''git'', ''show'', ''origin/main:rules/dup.xml'']
      = NonZeroExit ''fatal: unable to read blob''"
    by code_simp
  have built: "get_rule_ids_per_file_in_main env_unfetchable
      = ([GitCommandFailed [''git'', ''show'', ''origin/main:rules/dup.xml''],
          GitErrorText ''fatal: unable to read blob''],
         Inl (SystemExit 1))"
    by code_simp
  have run: "main env_unfetchable
      = ([Starting,
          GitCommandFailed [''git'', ''show'', ''origin/main:rules/dup.xml''],
          GitErrorText ''fatal: unable to read blob''],
         Inl (SystemExit 1))"
    by code_simp
  have status: "exit_status (main env_unfetchable) = 1"
    by code_simp
  from names listed unread built run status show ?thesis
    by (intro conjI)
qed

subsection \<open>Digits that \<^verbatim>\<open>int\<close> refuses\<close>

text \<open>
  Claim C6. The identifier of a \<^verbatim>\<open>rule\<close> element of parseable content is in the
  result exactly when the \<^verbatim>\<open>id\<close> attribute is present, not empty and made of decimal
  digits only. The code does otherwise: \<^verbatim>\<open>isdigit\<close> (line 48) accepts the superscript
  two, \<^verbatim>\<open>int\<close> (line 49) raises \<^verbatim>\<open>ValueError\<close> on it, and the handler of line 53
  is outside the loop. In \<open>xml_superscript\<close> the three elements have the identifiers
  \<^verbatim>\<open>100001\<close>, the superscript two and \<^verbatim>\<open>100002\<close>: the result is \<^verbatim>\<open>[100001]\<close>,
  without 100002, whose attribute is made of decimal digits only.
\<close>

theorem superscript_id_drops_later_ids:
  "fromstring example_env (''<root>'' @ xml_superscript @ ''</root>'')
     = Parsed (Element ''root'' []
         [rule_elem ''100001'', rule_elem [CHR 0xB2], rule_elem ''100002''])
   \<and> get_id (rule_elem ''100002'') = Some ''100002''
   \<and> list_all isdecimal_char ''100002''
   \<and> isdigit [CHR 0xB2]
   \<and> int_of_str (max_str_digits example_env) [CHR 0xB2] = Inl (ValueError [CHR 0xB2])
   \<and> extract_rule_ids_from_xml example_env xml_superscript
       = ([UnexpectedXmlError [CHR 0xB2]], Inr [100001])
   \<and> 100002 \<notin> set [100001 :: int]"
proof -
  have parsed: "fromstring example_env (''<root>'' @ xml_superscript @ ''</root>'')
     = Parsed (Element ''root'' []
         [rule_elem ''100001'', rule_elem [CHR 0xB2], rule_elem ''100002''])"
    by code_simp
  have present: "get_id (rule_elem ''100002'') = Some ''100002''"
    by code_simp
  have decimal: "list_all isdecimal_char ''100002''"
    by code_simp
  have digit: "isdigit [CHR 0xB2]"
    by code_simp
  have refused: "int_of_str (max_str_digits example_env) [CHR 0xB2] = Inl (ValueError [CHR 0xB2])"
    by code_simp
  have result: "extract_rule_ids_from_xml example_env xml_superscript
       = ([UnexpectedXmlError [CHR 0xB2]], Inr [100001])"
    by code_simp
  have dropped: "100002 \<notin> set [100001 :: int]"
    by simp
  from parsed present decimal digit refused result dropped show ?thesis
    by (intro conjI)
qed

end
